theory Spec2Isabelle
  imports Complex_Main
begin

section \<open>Data model\<close>

text \<open>
  The interfaces \<^verbatim>\<open>Boundary\<close>, \<^verbatim>\<open>GridLines\<close> and \<^verbatim>\<open>SliceResult\<close> of the
  source. A TypeScript \<^verbatim>\<open>number\<close> that carries a percentage or a pixel measure is a
  \<^typ>\<open>real\<close>. The boundaries and the crop rectangles are computed in real arithmetic.
  The resolution cap is computed in rounded doubles, and the pointer position of a drag
  in numbers with Infinity and NaN: the statements about the two depend on it. Loop
  counters, indices and image dimensions are natural numbers. The field \<^verbatim>\<open>end\<close> is
  written \<open>end'\<close>.
\<close>

record Boundary =
  start :: real
  end' :: real

record GridLines =
  horizontal :: "Boundary list"
  vertical :: "Boundary list"

record SliceResult =
  dataUrl :: string
  index :: nat
  row :: nat
  col :: nat

section \<open>Default boundaries (App.tsx, initializeGridLines)\<close>

text \<open>
  The value pushed by one iteration of the loop of \<^verbatim>\<open>generateBoundaries\<close>, with
  \<^verbatim>\<open>numBoundaries = count + 1\<close>, \<^verbatim>\<open>step = 100 / count\<close> and
  \<^verbatim>\<open>gutterHalfWidth = 1\<close>. With \<open>count = 0\<close> the loop runs once, for \<open>i = 0\<close>, where
  \<^verbatim>\<open>pos\<close> is not used.
\<close>

definition boundaryAt :: "nat \<Rightarrow> nat \<Rightarrow> Boundary" where
  "boundaryAt count i =
     (let numBoundaries = count + 1;
          step = 100 / real count;
          gutterHalfWidth = 1;
          pos = real i * step
      in if i = 0 then \<lparr>start = 0, end' = 1.5\<rparr>
         else if i = numBoundaries - 1 then \<lparr>start = 98.5, end' = 100\<rparr>
         else \<lparr>start = pos - gutterHalfWidth, end' = pos + gutterHalfWidth\<rparr>)"

text \<open>The loop \<^verbatim>\<open>for (let i = 0; i < numBoundaries; i++)\<close>, pushing onto \<^verbatim>\<open>boundaries\<close>.\<close>

function generateBoundaries_loop :: "nat \<Rightarrow> nat \<Rightarrow> Boundary list \<Rightarrow> Boundary list" where
  "generateBoundaries_loop count i boundaries =
     (if i < count + 1
      then generateBoundaries_loop count (i + 1) (boundaries @ [boundaryAt count i])
      else boundaries)"
  by pat_completeness auto
termination
  by (relation "measure (\<lambda>(count, i, boundaries). count + 1 - i)") auto

declare generateBoundaries_loop.simps [simp del]

definition generateBoundaries :: "nat \<Rightarrow> Boundary list" where
  "generateBoundaries count = generateBoundaries_loop count 0 []"

definition initializeGridLines :: "nat \<Rightarrow> nat \<Rightarrow> GridLines" where
  "initializeGridLines rows cols =
     \<lparr>horizontal = generateBoundaries rows, vertical = generateBoundaries cols\<rparr>"

section \<open>IEEE doubles\<close>

text \<open>
  The arithmetic of the resolution cap is that of the source: every product and quotient
  is rounded to the nearest binary64 number, ties to the even significand. \<open>exponent x\<close>
  is the binary exponent of a positive \<open>x\<close> (\<open>2 ^ e \<le> x < 2 ^ (e + 1)\<close>), \<open>pow2\<close> the power of
  two with an integer exponent, and \<open>fl\<close> the rounding: below \<open>2 ^ -1022\<close> the numbers are
  subnormal, spaced \<open>2 ^ -1074\<close> apart. Overflow to Infinity is not represented: for a
  finite width and height, of which one exceeds the cap, it can occur only in the larger
  of the two quotients, which \<^verbatim>\<open>Math.min\<close> discards.
\<close>

definition pow2 :: "int \<Rightarrow> real" where
  "pow2 e = (if 0 \<le> e then 2 ^ nat e else 1 / 2 ^ nat (- e))"

function exponent_up :: "real \<Rightarrow> int" where
  "exponent_up x = (if 2 \<le> x then exponent_up (x / 2) + 1 else 0)"
  by pat_completeness auto
termination
proof (relation "measure (\<lambda>x. nat \<lceil>x\<rceil>)")
  show "wf (measure (\<lambda>x::real. nat \<lceil>x\<rceil>))"
    by simp
next
  fix x :: real
  assume "2 \<le> x"
  then have "x / 2 \<le> x - 1"
    by simp
  also have "\<dots> \<le> of_int (\<lceil>x\<rceil> - 1)"
    using le_of_int_ceiling [of x] by simp
  finally have "\<lceil>x / 2\<rceil> \<le> \<lceil>x\<rceil> - 1"
    by (simp only: ceiling_le_iff)
  moreover from \<open>2 \<le> x\<close> have "0 < \<lceil>x\<rceil>"
    by (simp add: less_ceiling_iff)
  ultimately show "(x / 2, x) \<in> measure (\<lambda>x. nat \<lceil>x\<rceil>)"
    by simp
qed

function exponent_down :: "real \<Rightarrow> int" where
  "exponent_down x = (if 0 < x \<and> x < 1 then exponent_down (2 * x) - 1 else 0)"
  by pat_completeness auto
termination
proof (relation "measure (\<lambda>x. nat \<lceil>1 / x\<rceil>)")
  show "wf (measure (\<lambda>x::real. nat \<lceil>1 / x\<rceil>))"
    by simp
next
  fix x :: real
  assume x: "0 < x \<and> x < 1"
  then have one: "1 < 1 / x"
    by simp
  have two: "2 \<le> \<lceil>1 / x\<rceil>"
  proof -
    from one have "of_int 1 < 1 / x"
      by simp
    then have "1 < \<lceil>1 / x\<rceil>"
      by (simp only: less_ceiling_iff)
    then show ?thesis
      by simp
  qed
  have "1 / (2 * x) \<le> of_int (\<lceil>1 / x\<rceil> - 1)"
  proof (cases "2 \<le> 1 / x")
    case True
    then have "1 / (2 * x) \<le> 1 / x - 1"
      using x by (simp add: field_simps)
    also have "\<dots> \<le> of_int (\<lceil>1 / x\<rceil> - 1)"
      using le_of_int_ceiling [of "1 / x"] by simp
    finally show ?thesis .
  next
    case False
    then have "1 / (2 * x) < 1"
      using x by (simp add: field_simps)
    also have "(1::real) \<le> of_int (\<lceil>1 / x\<rceil> - 1)"
      using two by linarith
    finally show ?thesis
      by simp
  qed
  then have "\<lceil>1 / (2 * x)\<rceil> \<le> \<lceil>1 / x\<rceil> - 1"
    by (simp only: ceiling_le_iff)
  with two have "nat \<lceil>1 / (2 * x)\<rceil> < nat \<lceil>1 / x\<rceil>"
    by linarith
  then show "(2 * x, x) \<in> measure (\<lambda>x. nat \<lceil>1 / x\<rceil>)"
    by (simp only: in_measure)
qed

declare exponent_up.simps [simp del] exponent_down.simps [simp del]

definition exponent :: "real \<Rightarrow> int" where
  "exponent x = (if 1 \<le> x then exponent_up x else exponent_down x)"

definition roundEven :: "real \<Rightarrow> int" where
  "roundEven y =
     (if y - of_int \<lfloor>y\<rfloor> < 1 / 2 then \<lfloor>y\<rfloor>
      else if 1 / 2 < y - of_int \<lfloor>y\<rfloor> then \<lfloor>y\<rfloor> + 1
      else if even \<lfloor>y\<rfloor> then \<lfloor>y\<rfloor>
      else \<lfloor>y\<rfloor> + 1)"

definition fl :: "real \<Rightarrow> real" where
  "fl x =
     pow2 (max (exponent \<bar>x\<bar>) (- 1022) - 52) *
     of_int (roundEven (x / pow2 (max (exponent \<bar>x\<bar>) (- 1022) - 52)))"

section \<open>Slicing (App.tsx, handleSlice)\<close>

text \<open>The union type \<^verbatim>\<open>'webp' | 'jpeg' | 'png'\<close> of the output format, and its string.\<close>

datatype OutputFormat = webp | jpeg | png

fun formatName :: "OutputFormat \<Rightarrow> string" where
  "formatName webp = ''webp''"
| "formatName jpeg = ''jpeg''"
| "formatName png = ''png''"

text \<open>What the slicing reads of the decoded image element.\<close>

record HTMLImageElement =
  src :: string
  naturalWidth :: nat
  naturalHeight :: nat

text \<open>
  Reading a property of \<^verbatim>\<open>undefined\<close> raises a TypeError in the source; an array read
  out of range yields \<^verbatim>\<open>undefined\<close>, and every array read of the slicing is followed
  by a property or index read. So an out-of-range read is the error value.
\<close>

datatype error = TypeError

definition elemAt :: "'a list \<Rightarrow> nat \<Rightarrow> error + 'a" where
  "elemAt xs i = (if i < length xs then Inr (xs ! i) else Inl TypeError)"

text \<open>
  \<^verbatim>\<open>for (let i = 0; i < n; i++) body\<close>, threading the variables the body updates. The
  bound \<open>n\<close> is an integer: \<^verbatim>\<open>length - 1\<close> is \<open>-1\<close> on an empty array.
\<close>

function for_loop :: "(nat \<Rightarrow> 's \<Rightarrow> error + 's) \<Rightarrow> int \<Rightarrow> nat \<Rightarrow> 's \<Rightarrow> error + 's" where
  "for_loop body n i st =
     (if int i < n
      then (case body i st of Inl e \<Rightarrow> Inl e | Inr st' \<Rightarrow> for_loop body n (i + 1) st')
      else Inr st)"
  by pat_completeness auto
termination
  by (relation "measure (\<lambda>(body, n, i, st). nat (n - int i))") auto

declare for_loop.simps [simp del]

text \<open>
  The body of the loops filling \<^verbatim>\<open>hRanges\<close> and \<^verbatim>\<open>vRanges\<close>:
  \<^verbatim>\<open>ranges.push([lines[i].end, lines[i+1].start])\<close>.
\<close>

definition pushRange :: "Boundary list \<Rightarrow> nat \<Rightarrow> (real \<times> real) list \<Rightarrow> error + (real \<times> real) list" where
  "pushRange lines i ranges =
     (case elemAt lines i of
        Inl e \<Rightarrow> Inl e
      | Inr b0 \<Rightarrow>
          (case elemAt lines (i + 1) of
             Inl e \<Rightarrow> Inl e
           | Inr b1 \<Rightarrow> Inr (ranges @ [(end' b0, start b1)])))"

text \<open>
  The rectangle of one cell: \<^verbatim>\<open>xStartOrig\<close>, \<^verbatim>\<open>xEndOrig\<close>, \<^verbatim>\<open>yStartOrig\<close>,
  \<^verbatim>\<open>yEndOrig\<close>, \<^verbatim>\<open>sliceW\<close> and \<^verbatim>\<open>sliceH\<close> of the loop body.
\<close>

record CropRect =
  xStartOrig :: real
  xEndOrig :: real
  yStartOrig :: real
  yEndOrig :: real
  sliceW :: real
  sliceH :: real

definition cropRect ::
  "(real \<times> real) list \<Rightarrow> (real \<times> real) list \<Rightarrow> nat \<Rightarrow> nat \<Rightarrow> nat \<Rightarrow> nat \<Rightarrow> error + CropRect" where
  "cropRect hRanges vRanges imageWidth imageHeight r c =
     (case elemAt vRanges c of
        Inl e \<Rightarrow> Inl e
      | Inr v \<Rightarrow>
          (case elemAt hRanges r of
             Inl e \<Rightarrow> Inl e
           | Inr h \<Rightarrow>
               (let xs = (fst v / 100) * real imageWidth;
                    xe = (snd v / 100) * real imageWidth;
                    ys = (fst h / 100) * real imageHeight;
                    ye = (snd h / 100) * real imageHeight
                in Inr \<lparr>xStartOrig = xs, xEndOrig = xe, yStartOrig = ys, yEndOrig = ye,
                        sliceW = max 0 (xe - xs), sliceH = max 0 (ye - ys)\<rparr>)))"

text \<open>
  The resolution cap: \<^verbatim>\<open>maxDim\<close>, then \<^verbatim>\<open>targetW\<close> and \<^verbatim>\<open>targetH\<close>, in the doubles of the
  source. \<^verbatim>\<open>targetW = sliceW\<close> and \<^verbatim>\<open>targetH = sliceH\<close> are doubles there; the width and
  height given here are rounded to the nearest doubles, which changes nothing when they
  are doubles already. The two quotients and the two products are each rounded. The loop
  body reaches these lines with a positive width and height only.
\<close>

definition maxDim :: "bool \<Rightarrow> real" where
  "maxDim optimizeResolution = (if optimizeResolution then 1080 else 4096)"

definition targetSize :: "bool \<Rightarrow> real \<Rightarrow> real \<Rightarrow> real \<times> real" where
  "targetSize optimizeResolution w h =
     (let targetW = fl w;
          targetH = fl h
      in if targetW > maxDim optimizeResolution \<or> targetH > maxDim optimizeResolution
         then (let ratio = min (fl (maxDim optimizeResolution / targetW))
                               (fl (maxDim optimizeResolution / targetH))
               in (fl (targetW * ratio), fl (targetH * ratio)))
         else (targetW, targetH))"

text \<open>
  \<^verbatim>\<open>canvas.width = targetW\<close>: the attribute is an unsigned long, so a number that is not
  negative is truncated to an integer, modulo \<open>2 ^ 32\<close>.
\<close>

definition canvasDim :: "real \<Rightarrow> nat" where
  "canvasDim x = nat \<lfloor>x\<rfloor> mod 2 ^ 32"

text \<open>
  For the statements about the cap: the factor by which a width and a height that are
  doubles are multiplied, \<^verbatim>\<open>ratio\<close> where one of them exceeds the cap and 1 where none
  does.
\<close>

definition scaleRatio :: "bool \<Rightarrow> real \<Rightarrow> real \<Rightarrow> real" where
  "scaleRatio optimizeResolution w h =
     (if w > maxDim optimizeResolution \<or> h > maxDim optimizeResolution
      then min (fl (maxDim optimizeResolution / w)) (fl (maxDim optimizeResolution / h))
      else 1)"

text \<open>
  Everything the canvas and the encoder are given for one tile: the width and height of
  the canvas, the source rectangle and the target size of \<^verbatim>\<open>drawImage\<close>, the MIME type
  and the quality argument of
  \<^verbatim>\<open>toBlob\<close> (\<^verbatim>\<open>undefined\<close> for PNG). The encoder stands for \<^verbatim>\<open>drawImage\<close>,
  \<^verbatim>\<open>toBlob\<close> and \<^verbatim>\<open>readAsDataURL\<close> together: \<open>None\<close> is a \<^verbatim>\<open>null\<close> blob, \<open>Some\<close>
  the data URL of the blob.
\<close>

record TileRequest =
  canvasWidth :: nat
  canvasHeight :: nat
  crop :: CropRect
  targetW :: real
  targetH :: real
  mimeType :: string
  qVal :: "real option"

type_synonym encoder = "HTMLImageElement \<Rightarrow> TileRequest \<Rightarrow> string option"

definition tileRequest :: "real \<Rightarrow> bool \<Rightarrow> OutputFormat \<Rightarrow> CropRect \<Rightarrow> TileRequest" where
  "tileRequest quality optimizeResolution fmt rect =
     \<lparr>canvasWidth = canvasDim (fst (targetSize optimizeResolution (sliceW rect) (sliceH rect))),
      canvasHeight = canvasDim (snd (targetSize optimizeResolution (sliceW rect) (sliceH rect))),
      crop = rect,
      targetW = fst (targetSize optimizeResolution (sliceW rect) (sliceH rect)),
      targetH = snd (targetSize optimizeResolution (sliceW rect) (sliceH rect)),
      mimeType = ''image/'' @ formatName fmt,
      qVal = (if fmt = png then None else Some quality)\<rparr>"

text \<open>
  The body of the inner loop on the pair (\<^verbatim>\<open>newSlices\<close>, \<^verbatim>\<open>index\<close>). The first branch
  is the \<^verbatim>\<open>continue\<close>, which leaves both as they are.
\<close>

definition sliceCell ::
  "encoder \<Rightarrow> HTMLImageElement \<Rightarrow> real \<Rightarrow> bool \<Rightarrow> OutputFormat \<Rightarrow>
   (real \<times> real) list \<Rightarrow> (real \<times> real) list \<Rightarrow> nat \<Rightarrow> nat \<Rightarrow>
   SliceResult list \<times> nat \<Rightarrow> error + SliceResult list \<times> nat" where
  "sliceCell enc img quality optimizeResolution fmt hRanges vRanges r c st =
     (case cropRect hRanges vRanges (naturalWidth img) (naturalHeight img) r c of
        Inl e \<Rightarrow> Inl e
      | Inr rect \<Rightarrow>
          if sliceW rect \<le> 0 \<or> sliceH rect \<le> 0 then Inr st
          else (case enc img (tileRequest quality optimizeResolution fmt rect) of
                  None \<Rightarrow> Inr (fst st, snd st + 1)
                | Some url \<Rightarrow>
                    Inr (fst st @ [\<lparr>dataUrl = url, index = snd st, row = r, col = c\<rparr>],
                         snd st + 1)))"

text \<open>The slicing from \<^verbatim>\<open>numRows\<close> to the end of the loops: the value of \<^verbatim>\<open>newSlices\<close>.\<close>

definition sliceTiles ::
  "encoder \<Rightarrow> HTMLImageElement \<Rightarrow> GridLines \<Rightarrow> real \<Rightarrow> bool \<Rightarrow> OutputFormat \<Rightarrow>
   error + SliceResult list" where
  "sliceTiles enc img g quality optimizeResolution fmt =
     (let numRows = int (length (horizontal g)) - 1;
          numCols = int (length (vertical g)) - 1
      in case for_loop (pushRange (horizontal g)) numRows 0 [] of
           Inl e \<Rightarrow> Inl e
         | Inr hRanges \<Rightarrow>
             (case for_loop (pushRange (vertical g)) numCols 0 [] of
                Inl e \<Rightarrow> Inl e
              | Inr vRanges \<Rightarrow>
                  (case for_loop
                          (\<lambda>r. for_loop
                                 (sliceCell enc img quality optimizeResolution fmt
                                    hRanges vRanges r)
                                 numCols 0)
                          numRows 0 ([], 0) of
                     Inl e \<Rightarrow> Inl e
                   | Inr st \<Rightarrow> Inr (fst st))))"

text \<open>
  The rectangle the slicing computes for cell \<open>(r, c)\<close>: the two range loops, then the
  first lines of the loop body.
\<close>

definition cellCrop :: "GridLines \<Rightarrow> nat \<Rightarrow> nat \<Rightarrow> nat \<Rightarrow> nat \<Rightarrow> error + CropRect" where
  "cellCrop g imageWidth imageHeight r c =
     (let numRows = int (length (horizontal g)) - 1;
          numCols = int (length (vertical g)) - 1
      in case for_loop (pushRange (horizontal g)) numRows 0 [] of
           Inl e \<Rightarrow> Inl e
         | Inr hRanges \<Rightarrow>
             (case for_loop (pushRange (vertical g)) numCols 0 [] of
                Inl e \<Rightarrow> Inl e
              | Inr vRanges \<Rightarrow> cropRect hRanges vRanges imageWidth imageHeight r c))"

text \<open>
  The state \<^verbatim>\<open>handleSlice\<close> reads and writes. Without an image the handler returns at
  once; without a 2D context it returns after \<^verbatim>\<open>setIsSlicing(true)\<close>.
\<close>

record AppState =
  image' :: "HTMLImageElement option"
  quality :: real
  outputFormat :: OutputFormat
  optimizeResolution :: bool
  gridLines :: GridLines
  slices :: "SliceResult list"
  isSlicing :: bool
  settingsDirty :: bool

definition handleSlice :: "encoder \<Rightarrow> bool \<Rightarrow> AppState \<Rightarrow> error + AppState" where
  "handleSlice enc hasCtx st =
     (case image' st of
        None \<Rightarrow> Inr st
      | Some img \<Rightarrow>
          if \<not> hasCtx then Inr (st\<lparr>isSlicing := True\<rparr>)
          else (case sliceTiles enc img (gridLines st) (quality st) (optimizeResolution st)
                       (outputFormat st) of
                  Inl e \<Rightarrow> Inl e
                | Inr newSlices \<Rightarrow>
                    Inr (st\<lparr>slices := newSlices, isSlicing := False,
                            settingsDirty := False\<rparr>)))"

section \<open>The cells of a slicing run, written out\<close>

text \<open>
  The vocabulary of the statements about a slicing run. None of it is used by
  \<^const>\<open>sliceTiles\<close>; the section on the loops in closed form proves that the loops
  compute exactly this: \<^const>\<open>cropRect\<close> on the ranges of a grid is \<open>cellRect\<close> on
  every cell of the grid, and the tiles of a run are \<open>collect\<close> over the cells in scan
  order.

  The cells in row-major order, as the nested loops visit them, and the position of a
  cell in that order in a grid of \<open>numCols\<close> columns.
\<close>

definition scanOrder :: "nat \<Rightarrow> nat \<Rightarrow> (nat \<times> nat) list" where
  "scanOrder numRows numCols =
     concat (map (\<lambda>r. map (\<lambda>c. (r, c)) [0..<numCols]) [0..<numRows])"

definition scanPosition :: "nat \<Rightarrow> nat \<times> nat \<Rightarrow> nat" where
  "scanPosition numCols p = fst p * numCols + snd p"

text \<open>
  The band of cell \<open>i\<close> of one axis, from \<^verbatim>\<open>lines[i].end\<close> to \<^verbatim>\<open>lines[i+1].start\<close>
  (the entry \<open>i\<close> of \<^verbatim>\<open>hRanges\<close> or \<^verbatim>\<open>vRanges\<close>), and the rectangle of cell
  \<open>(r, c)\<close> in pixels, with the ranges written out in the six expressions of the loop
  body.
\<close>

definition band :: "Boundary list \<Rightarrow> nat \<Rightarrow> real \<times> real" where
  "band lines i = (end' (lines ! i), start (lines ! (i + 1)))"

definition cellRect :: "GridLines \<Rightarrow> nat \<Rightarrow> nat \<Rightarrow> nat \<times> nat \<Rightarrow> CropRect" where
  "cellRect g imageWidth imageHeight p =
     \<lparr>xStartOrig = (end' (vertical g ! snd p) / 100) * real imageWidth,
      xEndOrig = (start (vertical g ! (snd p + 1)) / 100) * real imageWidth,
      yStartOrig = (end' (horizontal g ! fst p) / 100) * real imageHeight,
      yEndOrig = (start (horizontal g ! (fst p + 1)) / 100) * real imageHeight,
      sliceW = max 0 ((start (vertical g ! (snd p + 1)) / 100) * real imageWidth -
                      (end' (vertical g ! snd p) / 100) * real imageWidth),
      sliceH = max 0 ((start (horizontal g ! (fst p + 1)) / 100) * real imageHeight -
                      (end' (horizontal g ! fst p) / 100) * real imageHeight)\<rparr>"

text \<open>
  A degenerate cell: its width or its height is not positive, the test before the
  \<^verbatim>\<open>continue\<close>.
\<close>

definition degenerate :: "GridLines \<Rightarrow> HTMLImageElement \<Rightarrow> nat \<times> nat \<Rightarrow> bool" where
  "degenerate g img p =
     (sliceW (cellRect g (naturalWidth img) (naturalHeight img) p) \<le> 0 \<or>
      sliceH (cellRect g (naturalWidth img) (naturalHeight img) p) \<le> 0)"

text \<open>
  What becomes of a cell: skipped as degenerate, dropped because the encoder gave no
  payload, or encoded to a data URL.
\<close>

datatype outcome = Skipped | Dropped | Encoded string

definition cellOutcome ::
  "encoder \<Rightarrow> HTMLImageElement \<Rightarrow> GridLines \<Rightarrow> real \<Rightarrow> bool \<Rightarrow> OutputFormat \<Rightarrow>
   nat \<times> nat \<Rightarrow> outcome" where
  "cellOutcome enc img g q opt fmt p =
     (if degenerate g img p then Skipped
      else (case enc img (tileRequest q opt fmt
                            (cellRect g (naturalWidth img) (naturalHeight img) p)) of
              None \<Rightarrow> Dropped
            | Some url \<Rightarrow> Encoded url))"

text \<open>
  The tiles of a list of cells, the next index being \<open>k\<close>, and the effect of one cell on
  the pair (\<^verbatim>\<open>newSlices\<close>, \<^verbatim>\<open>index\<close>).
\<close>

fun collect :: "(nat \<times> nat \<Rightarrow> outcome) \<Rightarrow> nat \<Rightarrow> (nat \<times> nat) list \<Rightarrow> SliceResult list" where
  "collect f k [] = []"
| "collect f k (p # ps) =
     (case f p of
        Skipped \<Rightarrow> collect f k ps
      | Dropped \<Rightarrow> collect f (k + 1) ps
      | Encoded url \<Rightarrow>
          \<lparr>dataUrl = url, index = k, row = fst p, col = snd p\<rparr> # collect f (k + 1) ps)"

definition cellStep ::
  "(nat \<times> nat \<Rightarrow> outcome) \<Rightarrow> nat \<times> nat \<Rightarrow> SliceResult list \<times> nat \<Rightarrow> SliceResult list \<times> nat" where
  "cellStep f p st =
     (case f p of
        Skipped \<Rightarrow> st
      | Dropped \<Rightarrow> (fst st, snd st + 1)
      | Encoded url \<Rightarrow>
          (fst st @ [\<lparr>dataUrl = url, index = snd st, row = fst p, col = snd p\<rparr>], snd st + 1))"

section \<open>Dragging a boundary (GridEditor, handleMouseMove)\<close>

text \<open>
  The state \<^verbatim>\<open>dragging\<close> of the editor (its field \<^verbatim>\<open>type\<close> is \<open>dragType\<close> here), the
  bounding rectangle of the editing surface and the pointer position of the event.
\<close>

datatype DragType = h_axis | v_axis

datatype Side = start_side | end_side

record Dragging =
  dragType :: DragType
  boundaryIdx :: nat
  side :: Side

record DOMRect =
  rectLeft :: real
  rectTop :: real
  rectWidth :: real
  rectHeight :: real

record MouseEvent =
  clientX :: real
  clientY :: real

text \<open>
  The handler divides by the width and the height of the surface, which can be zero.
  Its numbers are therefore real numbers, the two infinities and NaN, with the source's
  operations on them: a quotient by zero is an infinity with the sign of the dividend,
  and NaN when the dividend is zero too (a rectangle's width is never the negative
  zero); a product with 100 keeps an infinity and NaN; \<^verbatim>\<open>Math.min\<close> and \<^verbatim>\<open>Math.max\<close>
  with a finite first argument order the infinities below and above every number and
  return NaN for NaN.
\<close>

datatype jsnum = Num real | PosInfinity | NegInfinity | NaN

definition js_div :: "real \<Rightarrow> real \<Rightarrow> jsnum" where
  "js_div a b =
     (if b \<noteq> 0 then Num (a / b)
      else if 0 < a then PosInfinity
      else if a < 0 then NegInfinity
      else NaN)"

fun js_times :: "jsnum \<Rightarrow> real \<Rightarrow> jsnum" where
  "js_times (Num x) c = Num (x * c)"
| "js_times PosInfinity c = (if 0 < c then PosInfinity else if c < 0 then NegInfinity else NaN)"
| "js_times NegInfinity c = (if 0 < c then NegInfinity else if c < 0 then PosInfinity else NaN)"
| "js_times NaN c = NaN"

fun js_min :: "real \<Rightarrow> jsnum \<Rightarrow> jsnum" where
  "js_min c (Num x) = Num (min c x)"
| "js_min c PosInfinity = Num c"
| "js_min c NegInfinity = NegInfinity"
| "js_min c NaN = NaN"

fun js_max :: "real \<Rightarrow> jsnum \<Rightarrow> jsnum" where
  "js_max c (Num x) = Num (max c x)"
| "js_max c PosInfinity = PosInfinity"
| "js_max c NegInfinity = Num c"
| "js_max c NaN = NaN"

text \<open>
  The grid lines that the handler builds and passes to \<^verbatim>\<open>setGridLines\<close>: boundaries
  whose scalars are such numbers. \<open>jsBoundary\<close> is a boundary of the state among them.
\<close>

record JsBoundary =
  jsStart :: jsnum
  jsEnd :: jsnum

record JsGridLines =
  jsHorizontal :: "JsBoundary list"
  jsVertical :: "JsBoundary list"

definition jsBoundary :: "Boundary \<Rightarrow> JsBoundary" where
  "jsBoundary b = \<lparr>jsStart = Num (start b), jsEnd = Num (end' b)\<rparr>"

definition jsGridLines :: "GridLines \<Rightarrow> JsGridLines" where
  "jsGridLines g =
     \<lparr>jsHorizontal = map jsBoundary (horizontal g), jsVertical = map jsBoundary (vertical g)\<rparr>"

text \<open>\<^verbatim>\<open>{ ...b, [side]: x }\<close>, and \<^verbatim>\<open>Array.prototype.map\<close> with the element and its index.\<close>

fun setSide :: "Side \<Rightarrow> jsnum \<Rightarrow> JsBoundary \<Rightarrow> JsBoundary" where
  "setSide start_side x b = b\<lparr>jsStart := x\<rparr>"
| "setSide end_side x b = b\<lparr>jsEnd := x\<rparr>"

definition mapIndexed :: "('a \<Rightarrow> nat \<Rightarrow> 'b) \<Rightarrow> 'a list \<Rightarrow> 'b list" where
  "mapIndexed f xs = map (\<lambda>(idx, x). f x idx) (enumerate 0 xs)"

text \<open>
  The handler returns the grid lines it passes to \<^verbatim>\<open>setGridLines\<close>, and the grid lines
  as they are when it returns early (no drag in progress, or no surface).
\<close>

definition handleMouseMove ::
  "Dragging option \<Rightarrow> DOMRect option \<Rightarrow> MouseEvent \<Rightarrow> GridLines \<Rightarrow> JsGridLines" where
  "handleMouseMove dragging containerRef e g =
     (case dragging of
        None \<Rightarrow> jsGridLines g
      | Some d \<Rightarrow>
          (case containerRef of
             None \<Rightarrow> jsGridLines g
           | Some rect \<Rightarrow>
               (let x = js_times (js_div (clientX e - rectLeft rect) (rectWidth rect)) 100;
                    y = js_times (js_div (clientY e - rectTop rect) (rectHeight rect)) 100;
                    clampedX = js_max 0 (js_min 100 x);
                    clampedY = js_max 0 (js_min 100 y)
                in (jsGridLines g)
                     \<lparr>jsHorizontal :=
                        (if dragType d = h_axis
                         then mapIndexed
                                (\<lambda>b idx. if idx \<noteq> boundaryIdx d then b
                                          else setSide (side d) clampedY b)
                                (jsHorizontal (jsGridLines g))
                         else jsHorizontal (jsGridLines g)),
                      jsVertical :=
                        (if dragType d = v_axis
                         then mapIndexed
                                (\<lambda>b idx. if idx \<noteq> boundaryIdx d then b
                                          else setSide (side d) clampedX b)
                                (jsVertical (jsGridLines g))
                         else jsVertical (jsGridLines g))\<rparr>)))"

text \<open>
  For the statements about a drag: the boundaries of the dragged axis and of the other
  axis, the scalar of a boundary on a side, and the pointer position as a percentage
  of the surface on the dragged axis, before and after the clamp.
\<close>

fun axisOf :: "DragType \<Rightarrow> JsGridLines \<Rightarrow> JsBoundary list" where
  "axisOf h_axis g = jsHorizontal g"
| "axisOf v_axis g = jsVertical g"

fun otherAxisOf :: "DragType \<Rightarrow> JsGridLines \<Rightarrow> JsBoundary list" where
  "otherAxisOf h_axis g = jsVertical g"
| "otherAxisOf v_axis g = jsHorizontal g"

fun scalarOf :: "Side \<Rightarrow> JsBoundary \<Rightarrow> jsnum" where
  "scalarOf start_side b = jsStart b"
| "scalarOf end_side b = jsEnd b"

fun otherSide :: "Side \<Rightarrow> Side" where
  "otherSide start_side = end_side"
| "otherSide end_side = start_side"

fun pointerPercent :: "DragType \<Rightarrow> DOMRect \<Rightarrow> MouseEvent \<Rightarrow> jsnum" where
  "pointerPercent h_axis rect e =
     js_times (js_div (clientY e - rectTop rect) (rectHeight rect)) 100"
| "pointerPercent v_axis rect e =
     js_times (js_div (clientX e - rectLeft rect) (rectWidth rect)) 100"

definition clampedPercent :: "DragType \<Rightarrow> DOMRect \<Rightarrow> MouseEvent \<Rightarrow> jsnum" where
  "clampedPercent t rect e = js_max 0 (js_min 100 (pointerPercent t rect e))"

section \<open>Downloads (SlicePreview)\<close>

text \<open>The decimal digits of a number, as a template literal prints it.\<close>

function decimal :: "nat \<Rightarrow> string" where
  "decimal n =
     (if n < 10 then [''0123456789'' ! n]
      else decimal (n div 10) @ [''0123456789'' ! (n mod 10)])"
  by pat_completeness auto
termination
  by (relation "measure (\<lambda>n. n)") auto

declare decimal.simps [simp del]

text \<open>\<^verbatim>\<open>s.split(',')\<close>, and the element at index 1 of the result, if there is one.\<close>

fun split_on :: "char \<Rightarrow> string \<Rightarrow> string list" where
  "split_on sep [] = [[]]"
| "split_on sep (x # xs) =
     (if x = sep then [] # split_on sep xs
      else (case split_on sep xs of
              [] \<Rightarrow> [[x]]
            | w # ws \<Rightarrow> (x # w) # ws))"

definition base64Data :: "string \<Rightarrow> string option" where
  "base64Data url =
     (case split_on (CHR '','') url of
        _ # b # _ \<Rightarrow> Some b
      | _ \<Rightarrow> None)"

text \<open>
  The component takes \<^verbatim>\<open>slices\<close> and \<^verbatim>\<open>gridCols\<close>; the \<^verbatim>\<open>format\<close> that \<^verbatim>\<open>App\<close> passes is
  not among its properties. \<^verbatim>\<open>downloadAll\<close> returns at once while zipping; otherwise the
  archive gets one entry per slice, named by the position \<^verbatim>\<open>idx\<close> of the slice in the
  array, and is offered under a name that counts the slices. \<^verbatim>\<open>downloadOne\<close> is called
  with the data URL and the \<^verbatim>\<open>index\<close> of a slice and yields the link's \<^verbatim>\<open>href\<close> and
  \<^verbatim>\<open>download\<close>. A failure of the archive library, which the handler catches and
  reports, is not modelled.
\<close>

definition zipEntries :: "SliceResult list \<Rightarrow> (string \<times> string option) list" where
  "zipEntries slices' =
     mapIndexed
       (\<lambda>slice idx. (''slice_'' @ decimal (idx + 1) @ ''.webp'', base64Data (dataUrl slice)))
       slices'"

definition downloadAll ::
  "bool \<Rightarrow> SliceResult list \<Rightarrow> ((string \<times> string option) list \<times> string) option" where
  "downloadAll isZipping slices' =
     (if isZipping then None
      else Some (zipEntries slices',
                 ''grid_slices_'' @ decimal (length slices') @ ''_tiles.zip''))"

definition downloadOne :: "string \<Rightarrow> nat \<Rightarrow> string \<times> string" where
  "downloadOne url idx = (url, ''slice_'' @ decimal (idx + 1) @ ''.webp'')"

section \<open>Concrete inputs\<close>

text \<open>
  An encoder that gives no payload for a rectangle less than a pixel wide (the canvas
  width truncates to 0 and \<^verbatim>\<open>toBlob\<close> calls back with \<^verbatim>\<open>null\<close>), a 100 by 100 image, and
  a grid of one row and two columns whose first column is inverted by dragging: its band
  runs from 50 back to 40.
\<close>

definition exampleEncoder :: encoder where
  "exampleEncoder img req = (if sliceW (crop req) < 1 then None else Some ''tile'')"

definition image100 :: HTMLImageElement where
  "image100 = \<lparr>src = ''mosaic'', naturalWidth = 100, naturalHeight = 100\<rparr>"

definition gridInverted :: GridLines where
  "gridInverted =
     \<lparr>horizontal = [\<lparr>start = 0, end' = 1.5\<rparr>, \<lparr>start = 98.5, end' = 100\<rparr>],
      vertical = [\<lparr>start = 0, end' = 50\<rparr>, \<lparr>start = 40, end' = 60\<rparr>,
                  \<lparr>start = 98.5, end' = 100\<rparr>]\<rparr>"

text \<open>
  A grid of one row and three columns whose middle band is a fifth of a pixel wide on
  \<^const>\<open>image100\<close>: the encoder above gives no payload for it.
\<close>

definition gridThin :: GridLines where
  "gridThin =
     \<lparr>horizontal = [\<lparr>start = 0, end' = 1.5\<rparr>, \<lparr>start = 98.5, end' = 100\<rparr>],
      vertical = [\<lparr>start = 0, end' = 1.5\<rparr>, \<lparr>start = 40, end' = 50\<rparr>,
                  \<lparr>start = 50.2, end' = 60\<rparr>, \<lparr>start = 98.5, end' = 100\<rparr>]\<rparr>"

definition exampleState :: "GridLines \<Rightarrow> SliceResult list \<Rightarrow> AppState" where
  "exampleState g old =
     \<lparr>image' = Some image100, quality = 0.6, outputFormat = webp, optimizeResolution = True,
      gridLines = g, slices = old, isSlicing = False, settingsDirty = True\<rparr>"

text \<open>The grid lines of the initial state, before an image is loaded.\<close>

definition gridEmpty :: GridLines where
  "gridEmpty = \<lparr>horizontal = [], vertical = []\<rparr>"

text \<open>
  An encoder whose payload is a data URL of the requested MIME type, and that gives no
  payload for a rectangle less than a pixel wide.
\<close>

definition dataUrlEncoder :: encoder where
  "dataUrlEncoder img req =
     (if sliceW (crop req) < 1 then None
      else Some (''data:'' @ mimeType req @ '';base64,QUJD''))"

section \<open>Properties of the default boundaries\<close>

lemma generateBoundaries_loop_eq:
  "generateBoundaries_loop count i boundaries =
     boundaries @ map (boundaryAt count) [i..<count + 1]"
proof (induction count i boundaries rule: generateBoundaries_loop.induct)
  case (1 count i boundaries)
  show ?case
  proof (cases "i < count + 1")
    case True
    then have "[i..<count + 1] = i # [i + 1..<count + 1]"
      by (simp add: upt_conv_Cons)
    with True "1" show ?thesis
      by (simp add: generateBoundaries_loop.simps [of count i])
  next
    case False
    then show ?thesis
      by (simp add: generateBoundaries_loop.simps [of count i])
  qed
qed

lemma generateBoundaries_eq:
  "generateBoundaries count = map (boundaryAt count) [0..<count + 1]"
  by (simp add: generateBoundaries_def generateBoundaries_loop_eq)

lemma generateBoundaries_nth:
  "i \<le> count \<Longrightarrow> generateBoundaries count ! i = boundaryAt count i"
  unfolding generateBoundaries_eq
  using nth_map_upt [of i "count + 1" 0 "boundaryAt count"] by simp

text \<open>
  C2. For every integer \<open>count \<ge> 1\<close>, \<^verbatim>\<open>generateBoundaries(count)\<close> has exactly
  \<open>count + 1\<close> boundaries; boundary 0 is \<open>{start: 0, end: 1.5}\<close>, boundary \<open>count\<close> is
  \<open>{start: 98.5, end: 100}\<close>, and every boundary \<open>i\<close> strictly between them is
  \<open>{start: i * (100 / count) - 1, end: i * (100 / count) + 1}\<close>.
\<close>

theorem generateBoundaries_shape:
  assumes "1 \<le> count"
  shows "length (generateBoundaries count) = count + 1 \<and>
         generateBoundaries count ! 0 = \<lparr>start = 0, end' = 1.5\<rparr> \<and>
         generateBoundaries count ! count = \<lparr>start = 98.5, end' = 100\<rparr> \<and>
         (\<forall>i. 0 < i \<and> i < count \<longrightarrow>
            generateBoundaries count ! i =
              \<lparr>start = real i * (100 / real count) - 1,
               end' = real i * (100 / real count) + 1\<rparr>)"
proof -
  have len: "length (generateBoundaries count) = count + 1"
    by (simp add: generateBoundaries_eq)
  have first: "generateBoundaries count ! 0 = \<lparr>start = 0, end' = 1.5\<rparr>"
    by (simp add: generateBoundaries_nth boundaryAt_def)
  have last: "generateBoundaries count ! count = \<lparr>start = 98.5, end' = 100\<rparr>"
    using assms by (simp add: generateBoundaries_nth boundaryAt_def)
  have inner: "generateBoundaries count ! i =
      \<lparr>start = real i * (100 / real count) - 1, end' = real i * (100 / real count) + 1\<rparr>"
    if "0 < i" "i < count" for i
    using that by (simp add: generateBoundaries_nth boundaryAt_def Let_def)
  from len first last inner show ?thesis
    by blast
qed

theorem generateBoundaries_shape_witness:
  "(1::nat) \<le> 3 \<and> length (generateBoundaries 3) = 4 \<and>
   generateBoundaries 3 ! 0 = \<lparr>start = 0, end' = 1.5\<rparr> \<and>
   generateBoundaries 3 ! 3 = \<lparr>start = 98.5, end' = 100\<rparr> \<and>
   generateBoundaries 3 ! 1 = \<lparr>start = 1 * (100 / 3) - 1, end' = 1 * (100 / 3) + 1\<rparr> \<and>
   generateBoundaries 3 ! 2 = \<lparr>start = 2 * (100 / 3) - 1, end' = 2 * (100 / 3) + 1\<rparr>"
proof -
  have h: "(1::nat) \<le> 3" by simp
  from generateBoundaries_shape [OF h] have
    "length (generateBoundaries 3) = 3 + 1"
    "generateBoundaries 3 ! 0 = \<lparr>start = 0, end' = 1.5\<rparr>"
    "generateBoundaries 3 ! 3 = \<lparr>start = 98.5, end' = 100\<rparr>"
    "\<forall>i. 0 < i \<and> i < 3 \<longrightarrow> generateBoundaries 3 ! i =
        \<lparr>start = real i * (100 / real 3) - 1, end' = real i * (100 / real 3) + 1\<rparr>"
    by blast+
  then show ?thesis
    using h by simp
qed

section \<open>The loops in closed form\<close>

lemma for_loop_Inr:
  assumes "\<And>i s. lo \<le> i \<Longrightarrow> int i < n \<Longrightarrow> body i s = Inr (f i s)"
  shows "for_loop body n lo st = Inr (foldl (\<lambda>s i. f i s) st [lo..<nat n])"
  using assms
proof (induction body n lo st rule: for_loop.induct)
  case (1 body n i st)
  show ?case
  proof (cases "int i < n")
    case True
    then have upt: "[i..<nat n] = i # [i + 1..<nat n]"
      by (simp add: upt_conv_Cons)
    have b: "body i st = Inr (f i st)"
      using "1.prems" True by simp
    have "for_loop body n (i + 1) (f i st) =
            Inr (foldl (\<lambda>s i. f i s) (f i st) [i + 1..<nat n])"
      using "1.IH" [OF True b] "1.prems" by simp
    with True b upt show ?thesis
      by (simp add: for_loop.simps [of body n i])
  next
    case False
    then show ?thesis
      by (simp add: for_loop.simps [of body n i])
  qed
qed

lemma foldl_snoc_map: "foldl (\<lambda>s i. s @ [f i]) acc xs = acc @ map f xs"
  by (induction xs arbitrary: acc) simp_all

lemma ranges_eq:
  "for_loop (pushRange lines) (int (length lines) - 1) 0 [] =
     Inr (map (band lines) [0..<length lines - 1])"
proof -
  have "pushRange lines i s = Inr (s @ [band lines i])"
    if "int i < int (length lines) - 1" for i s
    using that by (simp add: pushRange_def elemAt_def band_def)
  then have "for_loop (pushRange lines) (int (length lines) - 1) 0 [] =
      Inr (foldl (\<lambda>s i. s @ [band lines i]) [] [0..<nat (int (length lines) - 1)])"
    by (intro for_loop_Inr) simp
  moreover have "nat (int (length lines) - 1) = length lines - 1"
    by simp
  ultimately show ?thesis
    by (simp add: foldl_snoc_map)
qed

lemma cropRect_bands:
  assumes "r + 1 < length (horizontal g)" and "c + 1 < length (vertical g)"
  shows "cropRect (map (band (horizontal g)) [0..<length (horizontal g) - 1])
           (map (band (vertical g)) [0..<length (vertical g) - 1]) w h r c =
         Inr (cellRect g w h (r, c))"
proof -
  from assms have "r < length (horizontal g) - 1" and "c < length (vertical g) - 1"
    by arith+
  then show ?thesis
    by (simp add: cropRect_def elemAt_def band_def cellRect_def Let_def)
qed

lemma sliceCell_bands:
  assumes "r + 1 < length (horizontal g)" and "c + 1 < length (vertical g)"
  shows "sliceCell enc img q opt fmt
           (map (band (horizontal g)) [0..<length (horizontal g) - 1])
           (map (band (vertical g)) [0..<length (vertical g) - 1]) r c st =
         Inr (cellStep (cellOutcome enc img g q opt fmt) (r, c) st)"
  unfolding sliceCell_def cropRect_bands [OF assms]
  by (simp add: cellStep_def cellOutcome_def degenerate_def split: option.split)

lemma foldl_rows_cols:
  "foldl (\<lambda>s r. foldl (\<lambda>s c. F (r, c) s) s cs) st rs =
     foldl (\<lambda>s p. F p s) st (concat (map (\<lambda>r. map (\<lambda>c. (r, c)) cs) rs))"
  by (induction rs arbitrary: st) (simp_all add: foldl_map)

lemma foldl_cellStep:
  "foldl (\<lambda>s p. cellStep f p s) (acc, k) ps =
     (acc @ collect f k ps, k + length (filter (\<lambda>p. f p \<noteq> Skipped) ps))"
  by (induction ps arbitrary: acc k) (simp_all add: cellStep_def split: outcome.split)

lemma sliceTiles_eq:
  "sliceTiles enc img g q opt fmt =
     Inr (collect (cellOutcome enc img g q opt fmt) 0
            (scanOrder (length (horizontal g) - 1) (length (vertical g) - 1)))"
proof -
  let ?nr = "length (horizontal g) - 1" and ?nc = "length (vertical g) - 1"
  let ?hR = "map (band (horizontal g)) [0..<?nr]"
  let ?vR = "map (band (vertical g)) [0..<?nc]"
  let ?F = "cellStep (cellOutcome enc img g q opt fmt)"
  have nat_nr: "nat (int (length (horizontal g)) - 1) = ?nr"
    and nat_nc: "nat (int (length (vertical g)) - 1) = ?nc"
    by simp_all
  have inner: "for_loop (sliceCell enc img q opt fmt ?hR ?vR r)
                 (int (length (vertical g)) - 1) 0 s =
               Inr (foldl (\<lambda>s c. ?F (r, c) s) s [0..<?nc])"
    if "int r < int (length (horizontal g)) - 1" for r s
  proof -
    have "sliceCell enc img q opt fmt ?hR ?vR r c s' = Inr (?F (r, c) s')"
      if "int c < int (length (vertical g)) - 1" for c s'
      using that \<open>int r < int (length (horizontal g)) - 1\<close>
      by (intro sliceCell_bands) simp_all
    then have "for_loop (sliceCell enc img q opt fmt ?hR ?vR r)
                 (int (length (vertical g)) - 1) 0 s =
               Inr (foldl (\<lambda>s c. ?F (r, c) s) s [0..<nat (int (length (vertical g)) - 1)])"
      by (intro for_loop_Inr) simp
    then show ?thesis
      by (simp only: nat_nc)
  qed
  have "for_loop (\<lambda>r. for_loop (sliceCell enc img q opt fmt ?hR ?vR r)
                        (int (length (vertical g)) - 1) 0)
          (int (length (horizontal g)) - 1) 0 ([], 0) =
        Inr (foldl (\<lambda>s r. foldl (\<lambda>s c. ?F (r, c) s) s [0..<?nc]) ([], 0)
               [0..<nat (int (length (horizontal g)) - 1)])"
    using inner by (intro for_loop_Inr) simp
  then have outer: "for_loop (\<lambda>r. for_loop (sliceCell enc img q opt fmt ?hR ?vR r)
                        (int (length (vertical g)) - 1) 0)
          (int (length (horizontal g)) - 1) 0 ([], 0) =
        Inr (foldl (\<lambda>s p. ?F p s) ([], 0) (scanOrder ?nr ?nc))"
    by (simp only: nat_nr foldl_rows_cols scanOrder_def)
  show ?thesis
    by (simp only: sliceTiles_def Let_def ranges_eq sum.case outer foldl_cellStep
        fst_conv append_Nil)
qed

section \<open>Scan order and tile indices\<close>

lemma scanOrder_product:
  "scanOrder numRows numCols = List.product [0..<numRows] [0..<numCols]"
proof -
  have "concat (map (\<lambda>r. map (\<lambda>c. (r, c)) ys) xs) = List.product xs ys"
    for xs :: "nat list" and ys :: "nat list"
    by (induction xs) simp_all
  then show ?thesis
    by (simp add: scanOrder_def)
qed

lemma distinct_scanOrder: "distinct (scanOrder numRows numCols)"
  by (simp add: scanOrder_product distinct_product)

lemma scanOrder_empty:
  "numRows = 0 \<or> numCols = 0 \<Longrightarrow> scanOrder numRows numCols = []"
  by (auto simp add: scanOrder_def)

lemma collect_cells:
  "map (\<lambda>s. (row s, col s)) (collect f k ps) =
     filter (\<lambda>p. f p \<noteq> Skipped \<and> f p \<noteq> Dropped) ps"
  by (induction ps arbitrary: k) (simp_all split: outcome.split)

lemma collect_payload:
  "s \<in> set (collect f k ps) \<Longrightarrow> f (row s, col s) = Encoded (dataUrl s)"
  by (induction ps arbitrary: k) (auto split: outcome.splits)

lemma collect_member:
  "s \<in> set (collect f k ps) \<Longrightarrow> (row s, col s) \<in> set ps"
  by (induction ps arbitrary: k) (auto split: outcome.splits)

lemma collect_index:
  assumes "distinct ps" and "s \<in> set (collect f k ps)"
  shows "index s =
           k + length (filter (\<lambda>p. f p \<noteq> Skipped) (takeWhile (\<lambda>p. p \<noteq> (row s, col s)) ps))"
  using assms
proof (induction ps arbitrary: k)
  case Nil
  then show ?case by simp
next
  case (Cons p ps)
  show ?case
  proof (cases "(row s, col s) = p")
    case True
    then have "(row s, col s) \<notin> set ps"
      using Cons.prems(1) by auto
    then have "s \<notin> set (collect f j ps)" for j
      using collect_member by blast
    with Cons.prems(2) True show ?thesis
      by (auto split: outcome.splits)
  next
    case False
    then have tw: "takeWhile (\<lambda>q. q \<noteq> (row s, col s)) (p # ps) =
        p # takeWhile (\<lambda>q. q \<noteq> (row s, col s)) ps"
      by auto
    from False Cons.prems(2) have
      "(f p = Skipped \<and> s \<in> set (collect f k ps)) \<or>
       (f p \<noteq> Skipped \<and> s \<in> set (collect f (k + 1) ps))"
      by (cases p) (auto split: outcome.splits)
    then show ?thesis
      using Cons.IH Cons.prems(1) unfolding tw by auto
  qed
qed

lemma cellOutcome_Skipped:
  "cellOutcome enc img g q opt fmt p \<noteq> Skipped \<longleftrightarrow> \<not> degenerate g img p"
  by (simp add: cellOutcome_def split: option.split)

lemma cellOutcome_Encoded:
  "cellOutcome enc img g q opt fmt p = Encoded url \<longleftrightarrow>
     \<not> degenerate g img p \<and>
     enc img (tileRequest q opt fmt (cellRect g (naturalWidth img) (naturalHeight img) p)) =
       Some url"
  by (simp add: cellOutcome_def split: option.split)

lemma cellOutcome_kept:
  "cellOutcome enc img g q opt fmt p \<noteq> Skipped \<and> cellOutcome enc img g q opt fmt p \<noteq> Dropped
     \<longleftrightarrow>
   \<not> degenerate g img p \<and>
   enc img (tileRequest q opt fmt (cellRect g (naturalWidth img) (naturalHeight img) p)) \<noteq> None"
  by (simp add: cellOutcome_def split: option.split)

section \<open>Rounding error of a double\<close>

lemma pow2_powr: "pow2 e = 2 powr (of_int e)"
proof (cases "0 \<le> e")
  case True
  then have "(2::real) powr (of_int e) = 2 powr (real (nat e))"
    by simp
  also have "\<dots> = 2 ^ nat e"
    by (simp only: powr_realpow zero_less_numeral)
  finally show ?thesis
    using True by (simp add: pow2_def)
next
  case False
  then have "(2::real) powr (of_int e) = 2 powr (- real (nat (- e)))"
    by simp
  also have "\<dots> = 1 / 2 ^ nat (- e)"
    by (simp only: powr_minus_divide powr_realpow zero_less_numeral)
  finally show ?thesis
    using False by (simp add: pow2_def)
qed

lemma pow2_pos: "0 < pow2 e"
  by (simp add: pow2_powr)

lemma pow2_add: "pow2 (a + b) = pow2 a * pow2 b"
  by (simp add: pow2_powr powr_add)

lemma pow2_mono: "a \<le> b \<Longrightarrow> pow2 a \<le> pow2 b"
  by (simp add: pow2_powr)

lemma pow2_one: "pow2 1 = 2"
  by (simp add: pow2_def)

lemma pow2_minus_one: "pow2 (- 1) = 1 / 2"
  by (simp add: pow2_def)

lemma exponent_up_le: "1 \<le> x \<Longrightarrow> pow2 (exponent_up x) \<le> x"
proof (induction x rule: exponent_up.induct)
  case (1 x)
  show ?case
  proof (cases "2 \<le> x")
    case True
    then have "pow2 (exponent_up (x / 2)) \<le> x / 2"
      using "1.IH" by simp
    moreover have "pow2 (exponent_up (x / 2) + 1) = pow2 (exponent_up (x / 2)) * 2"
      by (simp only: pow2_add pow2_one)
    ultimately show ?thesis
      using True by (simp add: exponent_up.simps [of x])
  next
    case False
    with "1.prems" show ?thesis
      by (simp add: exponent_up.simps [of x] pow2_def)
  qed
qed

lemma exponent_down_le: "0 < x \<Longrightarrow> pow2 (exponent_down x) \<le> x"
proof (induction x rule: exponent_down.induct)
  case (1 x)
  show ?case
  proof (cases "x < 1")
    case True
    with "1.prems" have "pow2 (exponent_down (2 * x)) \<le> 2 * x"
      using "1.IH" by simp
    moreover have "pow2 (exponent_down (2 * x) - 1) = pow2 (exponent_down (2 * x)) / 2"
      using pow2_add [of "exponent_down (2 * x)" "- 1"] by (simp add: pow2_minus_one)
    ultimately show ?thesis
      using True "1.prems" by (simp add: exponent_down.simps [of x])
  next
    case False
    then show ?thesis
      by (simp add: exponent_down.simps [of x] pow2_def)
  qed
qed

lemma exponent_le: "0 < x \<Longrightarrow> pow2 (exponent x) \<le> x"
  by (simp add: exponent_def exponent_up_le exponent_down_le)

lemma roundEven_err: "\<bar>of_int (roundEven y) - y\<bar> \<le> 1 / 2"
proof -
  have "of_int \<lfloor>y\<rfloor> \<le> y" and "y < of_int \<lfloor>y\<rfloor> + 1"
    by linarith+
  then show ?thesis
    by (auto simp add: roundEven_def)
qed

lemma roundEven_nonneg: "0 \<le> y \<Longrightarrow> 0 \<le> roundEven y"
  by (auto simp add: roundEven_def)

lemma fl_nonneg: "0 \<le> x \<Longrightarrow> 0 \<le> fl x"
  unfolding fl_def
  by (intro mult_nonneg_nonneg) (simp_all add: pow2_pos less_imp_le roundEven_nonneg)

lemma fl_err_spacing:
  "\<bar>fl x - x\<bar> \<le> pow2 (max (exponent \<bar>x\<bar>) (- 1022) - 52) / 2"
proof -
  define q where "q = pow2 (max (exponent \<bar>x\<bar>) (- 1022) - 52)"
  have q: "0 < q"
    by (simp add: q_def pow2_pos)
  have "fl x - x = q * (of_int (roundEven (x / q)) - x / q)"
    using q by (simp add: fl_def q_def [symmetric] algebra_simps)
  then have "\<bar>fl x - x\<bar> = q * \<bar>of_int (roundEven (x / q)) - x / q\<bar>"
    using q by (simp add: abs_mult)
  also have "\<dots> \<le> q * (1 / 2)"
    using q roundEven_err [of "x / q"] by (intro mult_left_mono) simp_all
  finally show ?thesis
    by (simp add: q_def)
qed

lemma fl_err: "\<bar>fl x - x\<bar> \<le> \<bar>x\<bar> * pow2 (- 53) + pow2 (- 1075)"
proof (cases "x = 0")
  case True
  then show ?thesis
    by (simp add: fl_def roundEven_def pow2_pos less_imp_le)
next
  case False
  have half: "pow2 e / 2 = pow2 (e + (- 1))" for e
    by (simp only: pow2_add pow2_minus_one times_divide_eq_right mult_1_right)
  show ?thesis
  proof (cases "- 1022 \<le> exponent \<bar>x\<bar>")
    case True
    then have "max (exponent \<bar>x\<bar>) (- 1022) - 52 + (- 1) = exponent \<bar>x\<bar> + (- 53)"
      by simp
    then have "pow2 (max (exponent \<bar>x\<bar>) (- 1022) - 52) / 2 = pow2 (exponent \<bar>x\<bar> + (- 53))"
      by (simp only: half)
    also have "\<dots> = pow2 (exponent \<bar>x\<bar>) * pow2 (- 53)"
      by (simp only: pow2_add)
    also have "\<dots> \<le> \<bar>x\<bar> * pow2 (- 53)"
      using exponent_le [of "\<bar>x\<bar>"] False pow2_pos [of "- 53"]
      by (intro mult_right_mono) simp_all
    finally have "pow2 (max (exponent \<bar>x\<bar>) (- 1022) - 52) / 2 \<le> \<bar>x\<bar> * pow2 (- 53)" .
    with fl_err_spacing [of x] pow2_pos [of "- 1075"] show ?thesis
      by linarith
  next
    case False
    then have "max (exponent \<bar>x\<bar>) (- 1022) - 52 + (- 1) = - 1075"
      by simp
    then have "pow2 (max (exponent \<bar>x\<bar>) (- 1022) - 52) / 2 = pow2 (- 1075)"
      by (simp only: half)
    moreover have "0 \<le> \<bar>x\<bar> * pow2 (- 53)"
      using pow2_pos [of "- 53"] by simp
    ultimately show ?thesis
      using fl_err_spacing [of x] by linarith
  qed
qed

section \<open>Statements about a slicing run\<close>

text \<open>
  C1, as the code has it. A cell whose crop width or height is not positive produces no
  tile, and the \<^verbatim>\<open>continue\<close> that skips it also skips the increment of the index: the
  index of an emitted tile is the number of cells with positive area that precede its
  cell in row-major scan order (cells whose encoding gave no payload included), not its
  scan position among all cells.
\<close>

theorem tile_index_counts_positive_cells:
  assumes "sliceTiles enc img g q opt fmt = Inr tiles" and "s \<in> set tiles"
  shows "(row s, col s) \<in> set (scanOrder (length (horizontal g) - 1) (length (vertical g) - 1)) \<and>
         \<not> degenerate g img (row s, col s) \<and>
         index s =
           length (filter (\<lambda>p. \<not> degenerate g img p)
                     (takeWhile (\<lambda>p. p \<noteq> (row s, col s))
                        (scanOrder (length (horizontal g) - 1) (length (vertical g) - 1))))"
proof -
  let ?f = "cellOutcome enc img g q opt fmt"
  let ?ps = "scanOrder (length (horizontal g) - 1) (length (vertical g) - 1)"
  from assms have mem: "s \<in> set (collect ?f 0 ?ps)"
    by (simp add: sliceTiles_eq)
  from collect_payload [OF mem] have "\<not> degenerate g img (row s, col s)"
    by (simp add: cellOutcome_Encoded)
  moreover from collect_member [OF mem] have "(row s, col s) \<in> set ?ps" .
  moreover from collect_index [OF distinct_scanOrder mem]
  have "index s =
      length (filter (\<lambda>p. \<not> degenerate g img p) (takeWhile (\<lambda>p. p \<noteq> (row s, col s)) ?ps))"
    by (simp add: cellOutcome_Skipped)
  ultimately show ?thesis
    by simp
qed

lemma sliceTiles_gridInverted:
  "sliceTiles exampleEncoder image100 gridInverted 0.6 True webp =
     Inr [\<lparr>dataUrl = ''tile'', index = 0, row = 0, col = 1\<rparr>]"
  by (simp add: sliceTiles_eq gridInverted_def scanOrder_def cellOutcome_def degenerate_def
      cellRect_def image100_def exampleEncoder_def tileRequest_def)

lemma degenerate_gridInverted:
  "degenerate gridInverted image100 (0, 0)"
  "\<not> degenerate gridInverted image100 (0, 1)"
  by (simp_all add: degenerate_def cellRect_def gridInverted_def image100_def)

lemma scanOrder_1_2: "scanOrder 1 2 = [(0, 0), (0, 1)]"
  by (simp add: scanOrder_def numeral_2_eq_2)

theorem tile_index_counts_positive_cells_witness:
  "sliceTiles exampleEncoder image100 gridInverted 0.6 True webp =
     Inr [\<lparr>dataUrl = ''tile'', index = 0, row = 0, col = 1\<rparr>] \<and>
   (0, 1) \<in> set (scanOrder 1 2) \<and>
   \<not> degenerate gridInverted image100 (0, 1) \<and>
   index \<lparr>dataUrl = ''tile'', index = 0, row = 0, col = 1\<rparr> =
     length (filter (\<lambda>p. \<not> degenerate gridInverted image100 p)
               (takeWhile (\<lambda>p. p \<noteq> (0, 1)) (scanOrder 1 2)))"
proof -
  have mem: "\<lparr>dataUrl = ''tile'', index = 0, row = 0, col = 1\<rparr> \<in>
      set [\<lparr>dataUrl = ''tile'', index = 0, row = 0, col = 1\<rparr>]"
    by simp
  have cnt: "length (filter (\<lambda>p. \<not> degenerate gridInverted image100 p)
               (takeWhile (\<lambda>p. p \<noteq> (0, 1)) (scanOrder 1 2))) = 0"
    unfolding scanOrder_1_2 using degenerate_gridInverted(1) by simp
  have cell: "(0, 1) \<in> set (scanOrder 1 2)"
    unfolding scanOrder_1_2 by simp
  from tile_index_counts_positive_cells [OF sliceTiles_gridInverted mem]
    sliceTiles_gridInverted cell degenerate_gridInverted(2) cnt
  show ?thesis
    by simp
qed

text \<open>
  The claim as stated fails on \<^const>\<open>gridInverted\<close>: cell (0, 0) is degenerate, and the
  tile of cell (0, 1), at scan position 1, has index 0.
\<close>

theorem tile_index_scan_position_counterexample:
  "sliceTiles exampleEncoder image100 gridInverted 0.6 True webp =
     Inr [\<lparr>dataUrl = ''tile'', index = 0, row = 0, col = 1\<rparr>] \<and>
   degenerate gridInverted image100 (0, 0) \<and>
   index \<lparr>dataUrl = ''tile'', index = 0, row = 0, col = 1\<rparr> \<noteq> scanPosition 2 (0, 1)"
  using sliceTiles_gridInverted degenerate_gridInverted(1)
  by (simp add: scanPosition_def)

lemma cellCrop_eq:
  assumes "r + 1 < length (horizontal g)" and "c + 1 < length (vertical g)"
  shows "cellCrop g imageWidth imageHeight r c = Inr (cellRect g imageWidth imageHeight (r, c))"
  by (simp only: cellCrop_def Let_def ranges_eq sum.case cropRect_bands [OF assms])

lemma initializeGridLines_1_1:
  "initializeGridLines 1 1 =
     \<lparr>horizontal = [\<lparr>start = 0, end' = 1.5\<rparr>, \<lparr>start = 98.5, end' = 100\<rparr>],
      vertical = [\<lparr>start = 0, end' = 1.5\<rparr>, \<lparr>start = 98.5, end' = 100\<rparr>]\<rparr>"
  by (simp add: initializeGridLines_def generateBoundaries_eq boundaryAt_def)

text \<open>
  C6. The crop rectangle of cell \<open>(r, c)\<close> is the gap between adjacent gutters: it starts
  at \<^verbatim>\<open>(vertical[c].end / 100) * imageWidth\<close> and
  \<^verbatim>\<open>(horizontal[r].end / 100) * imageHeight\<close>, runs to
  \<^verbatim>\<open>(vertical[c+1].start / 100) * imageWidth\<close> and
  \<^verbatim>\<open>(horizontal[r+1].start / 100) * imageHeight\<close>, and its width and height are
  \<open>max 0 (end - start)\<close> of those pixel bands. The rectangle is a function of the grid
  lines and the image dimensions alone.
\<close>

theorem cellCrop_is_gap_between_gutters:
  assumes "r + 1 < length (horizontal g)" and "c + 1 < length (vertical g)"
  shows "cellCrop g imageWidth imageHeight r c =
     Inr \<lparr>xStartOrig = (end' (vertical g ! c) / 100) * real imageWidth,
          xEndOrig = (start (vertical g ! (c + 1)) / 100) * real imageWidth,
          yStartOrig = (end' (horizontal g ! r) / 100) * real imageHeight,
          yEndOrig = (start (horizontal g ! (r + 1)) / 100) * real imageHeight,
          sliceW = max 0 ((start (vertical g ! (c + 1)) / 100) * real imageWidth -
                          (end' (vertical g ! c) / 100) * real imageWidth),
          sliceH = max 0 ((start (horizontal g ! (r + 1)) / 100) * real imageHeight -
                          (end' (horizontal g ! r) / 100) * real imageHeight)\<rparr>"
  using cellCrop_eq [OF assms, of imageWidth imageHeight]
  by (simp add: cellRect_def)

theorem cellCrop_is_gap_between_gutters_witness:
  "0 + 1 < length (horizontal gridInverted) \<and> 1 + 1 < length (vertical gridInverted) \<and>
   cellCrop gridInverted 100 100 0 1 =
     Inr \<lparr>xStartOrig = 60, xEndOrig = 98.5, yStartOrig = 1.5, yEndOrig = 98.5,
          sliceW = 38.5, sliceH = 97\<rparr>"
proof -
  have h: "0 + 1 < length (horizontal gridInverted)"
    and v: "1 + 1 < length (vertical gridInverted)"
    by (simp_all add: gridInverted_def)
  from cellCrop_is_gap_between_gutters [OF h v, of 100 100] h v
  show ?thesis
    by (simp add: gridInverted_def)
qed

lemma fl_upper: "0 \<le> x \<Longrightarrow> fl x \<le> x + x * pow2 (- 53) + pow2 (- 1075)"
  using fl_err [of x] by simp

lemma cap_numeric:
  assumes "M = 1080 \<or> M = 4096"
  shows "(M + M * pow2 (- 53) + pow2 (- 51)) * (1 + pow2 (- 53)) + pow2 (- 1075)
           \<le> M * (1 + pow2 (- 51))"
    and "M * (1 + pow2 (- 51)) < M + 1"
  using assms by (auto simp add: pow2_def)

lemma scaled_le_cap:
  assumes w: "0 < w" "w < 2 ^ 1024" and M: "M = 1080 \<or> M = 4096"
    and r: "0 \<le> r" "r \<le> fl (M / w)"
  shows "fl (w * r) \<le> M * (1 + pow2 (- 51))"
proof -
  have Mpos: "0 < M"
    using M by auto
  have "fl (M / w) \<le> M / w + M / w * pow2 (- 53) + pow2 (- 1075)"
    using w Mpos by (intro fl_upper) simp
  with r have "w * r \<le> w * (M / w + M / w * pow2 (- 53) + pow2 (- 1075))"
    using w by (intro mult_left_mono) simp_all
  also have "\<dots> = M + M * pow2 (- 53) + w * pow2 (- 1075)"
    using w by (simp add: algebra_simps)
  also have "w * pow2 (- 1075) \<le> 2 ^ 1024 * pow2 (- 1075)"
    using w pow2_pos [of "- 1075"] by (intro mult_right_mono) simp_all
  also have "(2::real) ^ 1024 * pow2 (- 1075) = pow2 (- 51)"
    using pow2_add [of 1024 "- 1075"] by (simp add: pow2_def)
  finally have wr: "w * r \<le> M + M * pow2 (- 53) + pow2 (- 51)"
    by simp
  have nonneg: "0 \<le> w * r"
    using w r by simp
  have "fl (w * r) \<le> w * r * (1 + pow2 (- 53)) + pow2 (- 1075)"
    using fl_upper [OF nonneg] by (simp add: algebra_simps)
  also have "\<dots> \<le> (M + M * pow2 (- 53) + pow2 (- 51)) * (1 + pow2 (- 53)) + pow2 (- 1075)"
    using wr pow2_pos [of "- 53"] by (simp add: mult_right_mono)
  also have "\<dots> \<le> M * (1 + pow2 (- 51))"
    using M by (rule cap_numeric)
  finally show ?thesis .
qed

lemma canvasDim_le:
  assumes "x < real n + 1"
  shows "canvasDim x \<le> n"
proof -
  from assms have "x < of_int (int n + 1)"
    by simp
  then have "\<lfloor>x\<rfloor> < int n + 1"
    by (simp only: floor_less_iff)
  then have "nat \<lfloor>x\<rfloor> \<le> n"
    by linarith
  moreover have "canvasDim x \<le> nat \<lfloor>x\<rfloor>"
    by (simp add: canvasDim_def)
  ultimately show ?thesis
    by simp
qed

text \<open>
  C4, as the code has it. For a crop rectangle whose width and height are positive,
  finite doubles: where neither exceeds the active cap (1080 with \<^verbatim>\<open>optimizeResolution\<close>, 4096 without)
  the target is the crop; where one does, both are multiplied by
  \<open>ratio = min (maxDim / width) (maxDim / height)\<close>, each quotient and each product
  rounded to a double. A target dimension exceeds the cap by a rounding error at most,
  a factor of \<open>1 + 2 ^ -51\<close>, so the dimension of the canvas, its integer part, never
  exceeds the cap. Each target dimension is the crop's times the one ratio up to one
  rounding: the aspect ratio of the crop is kept within rounding tolerance, not
  exactly.
\<close>

theorem targetSize_capped:
  assumes "fl w = w" and "0 < w" and "w < 2 ^ 1024"
    and "fl h = h" and "0 < h" and "h < 2 ^ 1024"
  shows "targetSize opt w h =
           (if w > maxDim opt \<or> h > maxDim opt
            then (fl (w * min (fl (maxDim opt / w)) (fl (maxDim opt / h))),
                  fl (h * min (fl (maxDim opt / w)) (fl (maxDim opt / h))))
            else (w, h)) \<and>
         maxDim opt = (if opt then 1080 else 4096) \<and>
         fst (targetSize opt w h) \<le> maxDim opt * (1 + pow2 (- 51)) \<and>
         snd (targetSize opt w h) \<le> maxDim opt * (1 + pow2 (- 51)) \<and>
         real (canvasDim (fst (targetSize opt w h))) \<le> maxDim opt \<and>
         real (canvasDim (snd (targetSize opt w h))) \<le> maxDim opt \<and>
         \<bar>fst (targetSize opt w h) - w * scaleRatio opt w h\<bar>
           \<le> w * scaleRatio opt w h * pow2 (- 53) + pow2 (- 1075) \<and>
         \<bar>snd (targetSize opt w h) - h * scaleRatio opt w h\<bar>
           \<le> h * scaleRatio opt w h * pow2 (- 53) + pow2 (- 1075)"
proof -
  define M where "M = maxDim opt"
  define r where "r = min (fl (M / w)) (fl (M / h))"
  have M: "M = 1080 \<or> M = 4096"
    by (simp add: M_def maxDim_def)
  then have Mpos: "0 < M"
    by auto
  obtain n :: nat where n: "M = real n"
    using M by (metis of_nat_numeral)
  have r0: "0 \<le> r"
    using assms Mpos by (simp add: r_def fl_nonneg)
  have def: "targetSize opt w h = (if w > M \<or> h > M then (fl (w * r), fl (h * r)) else (w, h))"
    by (simp add: targetSize_def M_def r_def Let_def assms(1,4))
  have ratio: "scaleRatio opt w h = (if w > M \<or> h > M then r else 1)"
    by (simp add: scaleRatio_def M_def r_def)
  have le: "fst (targetSize opt w h) \<le> M * (1 + pow2 (- 51))"
    "snd (targetSize opt w h) \<le> M * (1 + pow2 (- 51))"
  proof -
    have "fl (w * r) \<le> M * (1 + pow2 (- 51))"
      using assms(2,3) M r0 by (rule scaled_le_cap) (simp add: r_def)
    moreover have "fl (h * r) \<le> M * (1 + pow2 (- 51))"
      using assms(5,6) M r0 by (rule scaled_le_cap) (simp add: r_def)
    moreover have "M \<le> M * (1 + pow2 (- 51))"
      using Mpos pow2_pos [of "- 51"] by (simp add: algebra_simps)
    ultimately show "fst (targetSize opt w h) \<le> M * (1 + pow2 (- 51))"
      and "snd (targetSize opt w h) \<le> M * (1 + pow2 (- 51))"
      by (auto simp add: def)
  qed
  have lt: "M * (1 + pow2 (- 51)) < real n + 1"
    using cap_numeric(2) [OF M] n by simp
  have canvas: "real (canvasDim (fst (targetSize opt w h))) \<le> M"
    "real (canvasDim (snd (targetSize opt w h))) \<le> M"
    using le lt canvasDim_le [of _ n] unfolding n by (simp_all add: less_le_trans le_less_trans)
  have aspect: "\<bar>fst (targetSize opt w h) - w * scaleRatio opt w h\<bar>
        \<le> w * scaleRatio opt w h * pow2 (- 53) + pow2 (- 1075)"
    "\<bar>snd (targetSize opt w h) - h * scaleRatio opt w h\<bar>
        \<le> h * scaleRatio opt w h * pow2 (- 53) + pow2 (- 1075)"
  proof -
    have "\<bar>fl (w * r) - w * r\<bar> \<le> w * r * pow2 (- 53) + pow2 (- 1075)"
      using fl_err [of "w * r"] assms r0 by simp
    moreover have "\<bar>fl (h * r) - h * r\<bar> \<le> h * r * pow2 (- 53) + pow2 (- 1075)"
      using fl_err [of "h * r"] assms r0 by simp
    moreover have "0 \<le> w * pow2 (- 53) + pow2 (- 1075)" "0 \<le> h * pow2 (- 53) + pow2 (- 1075)"
      using assms pow2_pos [of "- 53"] pow2_pos [of "- 1075"] by (simp_all add: add_nonneg_nonneg)
    ultimately show "\<bar>fst (targetSize opt w h) - w * scaleRatio opt w h\<bar>
        \<le> w * scaleRatio opt w h * pow2 (- 53) + pow2 (- 1075)"
      and "\<bar>snd (targetSize opt w h) - h * scaleRatio opt w h\<bar>
        \<le> h * scaleRatio opt w h * pow2 (- 53) + pow2 (- 1075)"
      by (auto simp add: def ratio)
  qed
  have "maxDim opt = (if opt then 1080 else 4096)"
    by (simp add: maxDim_def)
  with def le canvas aspect show ?thesis
    unfolding M_def r_def by simp
qed

lemma fl_eval:
  "fl x =
     pow2 (max (exponent \<bar>x\<bar>) (- 1022) - 52) *
     of_int (roundEven (x / pow2 (max (exponent \<bar>x\<bar>) (- 1022) - 52)))"
  by (simp add: fl_def)

lemmas double_eval =
  fl_eval exponent_def exponent_up.simps exponent_down.simps pow2_def roundEven_def

lemma targetSize_2128:
  "targetSize True 2128 1064 = (1080 + 1 / 2 ^ 42, 540 + 1 / 2 ^ 43)"
  unfolding targetSize_def Let_def maxDim_def by (simp add: double_eval)

lemma fl_2128: "fl 2128 = 2128" "fl 1064 = 1064"
  by (simp_all add: double_eval)

theorem targetSize_capped_witness:
  "fl 2128 = 2128 \<and> (0::real) < 2128 \<and> (2128::real) < 2 ^ 1024 \<and>
   fl 1064 = 1064 \<and> (0::real) < 1064 \<and> (1064::real) < 2 ^ 1024 \<and>
   targetSize True 2128 1064 = (1080 + 1 / 2 ^ 42, 540 + 1 / 2 ^ 43) \<and>
   fst (targetSize True 2128 1064) \<le> maxDim True * (1 + pow2 (- 51)) \<and>
   snd (targetSize True 2128 1064) \<le> maxDim True * (1 + pow2 (- 51)) \<and>
   real (canvasDim (fst (targetSize True 2128 1064))) \<le> maxDim True \<and>
   real (canvasDim (snd (targetSize True 2128 1064))) \<le> maxDim True \<and>
   \<bar>fst (targetSize True 2128 1064) - 2128 * scaleRatio True 2128 1064\<bar>
     \<le> 2128 * scaleRatio True 2128 1064 * pow2 (- 53) + pow2 (- 1075) \<and>
   \<bar>snd (targetSize True 2128 1064) - 1064 * scaleRatio True 2128 1064\<bar>
     \<le> 1064 * scaleRatio True 2128 1064 * pow2 (- 53) + pow2 (- 1075)"
proof -
  have w: "(0::real) < 2128" "(2128::real) < 2 ^ 1024"
    and h: "(0::real) < 1064" "(1064::real) < 2 ^ 1024"
    by simp_all
  from targetSize_capped [OF fl_2128(1) w fl_2128(2) h, of True] have
    "fst (targetSize True 2128 1064) \<le> maxDim True * (1 + pow2 (- 51))"
    "snd (targetSize True 2128 1064) \<le> maxDim True * (1 + pow2 (- 51))"
    "real (canvasDim (fst (targetSize True 2128 1064))) \<le> maxDim True"
    "real (canvasDim (snd (targetSize True 2128 1064))) \<le> maxDim True"
    "\<bar>fst (targetSize True 2128 1064) - 2128 * scaleRatio True 2128 1064\<bar>
       \<le> 2128 * scaleRatio True 2128 1064 * pow2 (- 53) + pow2 (- 1075)"
    "\<bar>snd (targetSize True 2128 1064) - 1064 * scaleRatio True 2128 1064\<bar>
       \<le> 1064 * scaleRatio True 2128 1064 * pow2 (- 53) + pow2 (- 1075)"
    by blast+
  with w h fl_2128 targetSize_2128 show ?thesis
    by blast
qed

text \<open>
  The claim as stated fails in the doubles of the source. The row of a default grid of
  one row on an image 2210 high is 2143.7 high, in doubles \<open>2357023076463411 / 2 ^ 40\<close>;
  a square crop of that size gets the target \<open>1080 + 2 ^ -42\<close>, printed
  1080.0000000000002, above the cap of 1080. The first cell of the default 3 by 3 grid
  on an image of 3840 by 2160 has the crop \<open>5207287069147137 / 2 ^ 42\<close> by
  \<open>5858197952790529 / 2 ^ 43\<close>, printed 1184.0000000000002 and 666.0000000000001, and
  gets the target 1080 by 607.5, whose aspect ratio is not that of the crop.
\<close>

theorem targetSize_exact_counterexample:
  "fl 2143.7 = 2357023076463411 / 2 ^ 40 \<and>
   fst (targetSize True 2143.7 2143.7) = 1080 + 1 / 2 ^ 42 \<and>
   \<not> fst (targetSize True 2143.7 2143.7) \<le> (if True then 1080 else 4096) \<and>
   fl (5207287069147137 / 2 ^ 42) = 5207287069147137 / 2 ^ 42 \<and>
   fl (5858197952790529 / 2 ^ 43) = 5858197952790529 / 2 ^ 43 \<and>
   targetSize True (5207287069147137 / 2 ^ 42) (5858197952790529 / 2 ^ 43) = (1080, 1215 / 2) \<and>
   fst (targetSize True (5207287069147137 / 2 ^ 42) (5858197952790529 / 2 ^ 43)) /
     snd (targetSize True (5207287069147137 / 2 ^ 42) (5858197952790529 / 2 ^ 43)) \<noteq>
   (5207287069147137 / 2 ^ 42) / (5858197952790529 / 2 ^ 43)"
proof -
  have a: "targetSize True 2143.7 2143.7 = (1080 + 1 / 2 ^ 42, 1080 + 1 / 2 ^ 42)"
    unfolding targetSize_def Let_def maxDim_def by (simp add: double_eval)
  have b: "targetSize True (5207287069147137 / 2 ^ 42) (5858197952790529 / 2 ^ 43) =
      (1080, 1215 / 2)"
    unfolding targetSize_def Let_def maxDim_def by (simp add: double_eval)
  have c: "fl 2143.7 = 2357023076463411 / 2 ^ 40"
    "fl (5207287069147137 / 2 ^ 42) = 5207287069147137 / 2 ^ 42"
    "fl (5858197952790529 / 2 ^ 43) = 5858197952790529 / 2 ^ 43"
    by (simp_all add: double_eval)
  show ?thesis
    unfolding a b c by simp
qed

lemma targetSize_4850: "targetSize False 4850 4850 = (4096, 4096)"
  unfolding targetSize_def Let_def maxDim_def by (simp add: double_eval)

lemma canvasDim_4096: "canvasDim 4096 = 4096"
  by (simp add: canvasDim_def)

text \<open>
  C3, as the code has it. A single-cell grid with the default boundaries on a 5000 by
  5000 image without \<^verbatim>\<open>optimizeResolution\<close> makes exactly one request to the encoder,
  hence exactly one tile when the encoder gives a payload. Its crop is 4850 by 4850 (the
  outer margins of 1.5 per cent are cut away), and its target dimensions are the crop
  dimensions scaled by \<open>4096 / 4850\<close>, that is 4096 by 4096.
\<close>

theorem single_cell_5000_scaled_to_cap:
  "sliceTiles enc \<lparr>src = s, naturalWidth = 5000, naturalHeight = 5000\<rparr>
     (initializeGridLines 1 1) q False fmt =
   Inr (case enc \<lparr>src = s, naturalWidth = 5000, naturalHeight = 5000\<rparr>
               \<lparr>canvasWidth = 4096, canvasHeight = 4096,
                crop = \<lparr>xStartOrig = 75, xEndOrig = 4925, yStartOrig = 75, yEndOrig = 4925,
                        sliceW = 4850, sliceH = 4850\<rparr>,
                targetW = 4850 * (4096 / 4850), targetH = 4850 * (4096 / 4850),
                mimeType = ''image/'' @ formatName fmt,
                qVal = (if fmt = png then None else Some q)\<rparr> of
          None \<Rightarrow> []
        | Some url \<Rightarrow> [\<lparr>dataUrl = url, index = 0, row = 0, col = 0\<rparr>])"
proof -
  note g = initializeGridLines_1_1
  have size: "targetSize False 4850 4850 = (4096, 4096)"
    by (rule targetSize_4850)
  show ?thesis
    unfolding sliceTiles_eq g
    by (simp add: scanOrder_def cellOutcome_def degenerate_def cellRect_def tileRequest_def
        size canvasDim_4096 split: option.split)
qed

theorem single_cell_5000_scaled_to_cap_witness:
  "sliceTiles exampleEncoder \<lparr>src = ''mosaic'', naturalWidth = 5000, naturalHeight = 5000\<rparr>
     (initializeGridLines 1 1) 0.6 False webp =
   Inr [\<lparr>dataUrl = ''tile'', index = 0, row = 0, col = 0\<rparr>]"
  using single_cell_5000_scaled_to_cap [of exampleEncoder "''mosaic''" "0.6" webp]
  by (simp add: exampleEncoder_def)

text \<open>
  The claim as stated fails: the crop of the single cell is 4850 wide and high, its
  target is 4096 wide and high, and 4850 scaled by \<open>4096 / 5000\<close> is not 4096.
\<close>

theorem single_cell_5000_ratio_counterexample:
  "cellCrop (initializeGridLines 1 1) 5000 5000 0 0 =
     Inr \<lparr>xStartOrig = 75, xEndOrig = 4925, yStartOrig = 75, yEndOrig = 4925,
          sliceW = 4850, sliceH = 4850\<rparr> \<and>
   targetSize False 4850 4850 = (4096, 4096) \<and>
   targetSize False 4850 4850 \<noteq> (4850 * (4096 / 5000), 4850 * (4096 / 5000))"
proof -
  have "0 + 1 < length (horizontal (initializeGridLines 1 1))"
    and "0 + 1 < length (vertical (initializeGridLines 1 1))"
    unfolding initializeGridLines_1_1 by simp_all
  then have "cellCrop (initializeGridLines 1 1) 5000 5000 0 0 =
      Inr (cellRect (initializeGridLines 1 1) 5000 5000 (0, 0))"
    by (rule cellCrop_eq)
  moreover have "cellRect (initializeGridLines 1 1) 5000 5000 (0, 0) =
      \<lparr>xStartOrig = 75, xEndOrig = 4925, yStartOrig = 75, yEndOrig = 4925,
       sliceW = 4850, sliceH = 4850\<rparr>"
    unfolding initializeGridLines_1_1 by (simp add: cellRect_def)
  moreover have "targetSize False 4850 4850 = (4096, 4096)"
    by (rule targetSize_4850)
  ultimately show ?thesis
    by simp
qed

text \<open>
  C8. When the encoder gives no payload for a cell, the tile is left out and nothing is
  raised: the run returns a state whose tiles are, in scan order, exactly the cells of
  positive area for which the encoder gave a payload, each with that payload, whatever
  happened to the cells before and after it.
\<close>

theorem encode_failure_absorbed:
  assumes "image' st = Some img"
  shows "\<exists>tiles.
     handleSlice enc True st =
       Inr (st\<lparr>slices := tiles, isSlicing := False, settingsDirty := False\<rparr>) \<and>
     map (\<lambda>s. (row s, col s)) tiles =
       filter (\<lambda>p. \<not> degenerate (gridLines st) img p \<and>
                   enc img (tileRequest (quality st) (optimizeResolution st) (outputFormat st)
                              (cellRect (gridLines st) (naturalWidth img) (naturalHeight img) p))
                     \<noteq> None)
         (scanOrder (length (horizontal (gridLines st)) - 1)
            (length (vertical (gridLines st)) - 1)) \<and>
     (\<forall>s \<in> set tiles.
        enc img (tileRequest (quality st) (optimizeResolution st) (outputFormat st)
                   (cellRect (gridLines st) (naturalWidth img) (naturalHeight img)
                      (row s, col s))) =
          Some (dataUrl s))"
proof -
  let ?f = "cellOutcome enc img (gridLines st) (quality st) (optimizeResolution st)
              (outputFormat st)"
  let ?ps = "scanOrder (length (horizontal (gridLines st)) - 1)
               (length (vertical (gridLines st)) - 1)"
  let ?tiles = "collect ?f 0 ?ps"
  have run: "handleSlice enc True st =
      Inr (st\<lparr>slices := ?tiles, isSlicing := False, settingsDirty := False\<rparr>)"
    using assms by (simp add: handleSlice_def sliceTiles_eq)
  have cells: "map (\<lambda>s. (row s, col s)) ?tiles =
      filter (\<lambda>p. \<not> degenerate (gridLines st) img p \<and>
                  enc img (tileRequest (quality st) (optimizeResolution st) (outputFormat st)
                             (cellRect (gridLines st) (naturalWidth img) (naturalHeight img) p))
                    \<noteq> None) ?ps"
    by (simp only: collect_cells cellOutcome_kept)
  have payload: "enc img (tileRequest (quality st) (optimizeResolution st) (outputFormat st)
                   (cellRect (gridLines st) (naturalWidth img) (naturalHeight img)
                      (row s, col s))) = Some (dataUrl s)"
    if "s \<in> set ?tiles" for s
    using collect_payload [OF that] by (simp add: cellOutcome_Encoded)
  from run cells payload show ?thesis
    by blast
qed

lemma handleSlice_gridThin:
  "handleSlice exampleEncoder True (exampleState gridThin old) =
     Inr ((exampleState gridThin old)
            \<lparr>slices := [\<lparr>dataUrl = ''tile'', index = 0, row = 0, col = 0\<rparr>,
                        \<lparr>dataUrl = ''tile'', index = 2, row = 0, col = 2\<rparr>],
             isSlicing := False, settingsDirty := False\<rparr>)"
  by (simp add: handleSlice_def exampleState_def sliceTiles_eq gridThin_def scanOrder_def
      cellOutcome_def degenerate_def cellRect_def image100_def exampleEncoder_def
      tileRequest_def)

theorem encode_failure_absorbed_witness:
  "image' (exampleState gridThin []) = Some image100 \<and>
   exampleEncoder image100
     (tileRequest 0.6 True webp (cellRect gridThin 100 100 (0, 1))) = None \<and>
   handleSlice exampleEncoder True (exampleState gridThin []) =
     Inr ((exampleState gridThin [])
            \<lparr>slices := [\<lparr>dataUrl = ''tile'', index = 0, row = 0, col = 0\<rparr>,
                        \<lparr>dataUrl = ''tile'', index = 2, row = 0, col = 2\<rparr>],
             isSlicing := False, settingsDirty := False\<rparr>)"
proof -
  have img: "image' (exampleState gridThin []) = Some image100"
    by (simp add: exampleState_def)
  have none: "exampleEncoder image100
      (tileRequest 0.6 True webp (cellRect gridThin 100 100 (0, 1))) = None"
    by (simp add: exampleEncoder_def tileRequest_def cellRect_def gridThin_def)
  from encode_failure_absorbed [OF img, of exampleEncoder] img none handleSlice_gridThin [of "[]"]
  show ?thesis
    by simp
qed

text \<open>
  C9. Two runs of the slicing on the same image, grid lines, quality, resolution switch
  and output format, with the same encoder, give the same tiles: the same length, the
  same rows, columns and indices, the same payloads. The tiles, the slicing flag and the
  dirty flag that a run finds in the state have no influence on it.
\<close>

theorem handleSlice_repeatable:
  assumes "image' st = Some img" and "image' st' = Some img"
    and "gridLines st' = gridLines st" and "quality st' = quality st"
    and "optimizeResolution st' = optimizeResolution st"
    and "outputFormat st' = outputFormat st"
  shows "\<exists>r r'. handleSlice enc True st = Inr r \<and> handleSlice enc True st' = Inr r' \<and>
           slices r = slices r'"
  using assms by (simp add: handleSlice_def sliceTiles_eq)

theorem handleSlice_repeatable_witness:
  "image' (exampleState gridThin []) = Some image100 \<and>
   image' (exampleState gridThin [\<lparr>dataUrl = ''old'', index = 7, row = 1, col = 1\<rparr>]) =
     Some image100 \<and>
   (\<exists>r r'. handleSlice exampleEncoder True (exampleState gridThin []) = Inr r \<and>
      handleSlice exampleEncoder True
        (exampleState gridThin [\<lparr>dataUrl = ''old'', index = 7, row = 1, col = 1\<rparr>]) = Inr r' \<and>
      slices r = slices r' \<and>
      slices r = [\<lparr>dataUrl = ''tile'', index = 0, row = 0, col = 0\<rparr>,
                  \<lparr>dataUrl = ''tile'', index = 2, row = 0, col = 2\<rparr>])"
proof -
  let ?old = "[\<lparr>dataUrl = ''old'', index = 7, row = 1, col = 1\<rparr>]"
  have a: "image' (exampleState gridThin []) = Some image100"
    and b: "image' (exampleState gridThin ?old) = Some image100"
    by (simp_all add: exampleState_def)
  have same: "gridLines (exampleState gridThin ?old) = gridLines (exampleState gridThin [])"
    "quality (exampleState gridThin ?old) = quality (exampleState gridThin [])"
    "optimizeResolution (exampleState gridThin ?old) =
       optimizeResolution (exampleState gridThin [])"
    "outputFormat (exampleState gridThin ?old) = outputFormat (exampleState gridThin [])"
    by (simp_all add: exampleState_def)
  from handleSlice_repeatable [OF a b same, of exampleEncoder]
  obtain r r' where r: "handleSlice exampleEncoder True (exampleState gridThin []) = Inr r"
    and r': "handleSlice exampleEncoder True (exampleState gridThin ?old) = Inr r'"
    and eq: "slices r = slices r'"
    by blast
  from r have "slices r = [\<lparr>dataUrl = ''tile'', index = 0, row = 0, col = 0\<rparr>,
                           \<lparr>dataUrl = ''tile'', index = 2, row = 0, col = 2\<rparr>]"
    by (auto simp add: handleSlice_gridThin [of "[]"])
  with a b r r' eq show ?thesis
    by blast
qed

text \<open>
  C10. The slicing never reads a boundary or a range out of range, whatever the grid
  lines are: every read of the model that is out of range is \<open>Inl TypeError\<close>, and the
  run returns \<open>Inr\<close>. When an axis has fewer than two boundaries the result is the empty
  list.
\<close>

theorem slicing_reads_in_range:
  "(\<exists>tiles. sliceTiles enc img g q opt fmt = Inr tiles) \<and>
   (\<exists>st'. handleSlice enc hasCtx st = Inr st') \<and>
   (length (horizontal g) < 2 \<or> length (vertical g) < 2 \<longrightarrow>
      sliceTiles enc img g q opt fmt = Inr [])"
proof -
  have "scanOrder (length (horizontal g) - 1) (length (vertical g) - 1) = []"
    if "length (horizontal g) < 2 \<or> length (vertical g) < 2"
    using that by (intro scanOrder_empty) arith
  then have "sliceTiles enc img g q opt fmt = Inr []"
    if "length (horizontal g) < 2 \<or> length (vertical g) < 2"
    using that by (simp add: sliceTiles_eq)
  moreover have "\<exists>st'. handleSlice enc hasCtx st = Inr st'"
    by (simp add: handleSlice_def sliceTiles_eq split: option.split)
  ultimately show ?thesis
    by (simp add: sliceTiles_eq)
qed

theorem slicing_reads_in_range_witness:
  "length (horizontal gridEmpty) < 2 \<and>
   sliceTiles exampleEncoder image100 gridEmpty 0.6 True webp = Inr [] \<and>
   (\<exists>st'. handleSlice exampleEncoder True (exampleState gridEmpty []) = Inr st')"
proof -
  have "length (horizontal gridEmpty) < 2"
    by (simp add: gridEmpty_def)
  with slicing_reads_in_range
    [of exampleEncoder image100 gridEmpty "0.6" True webp True "exampleState gridEmpty []"]
  show ?thesis
    by blast
qed

section \<open>Statements about dragging\<close>

lemma length_mapIndexed: "length (mapIndexed f xs) = length xs"
  by (simp add: mapIndexed_def)

lemma nth_mapIndexed: "j < length xs \<Longrightarrow> mapIndexed f xs ! j = f (xs ! j) j"
  by (simp add: mapIndexed_def nth_enumerate_eq)

lemma scalarOf_setSide:
  "scalarOf sd (setSide sd x b) = x"
  "scalarOf (otherSide sd) (setSide sd x b) = scalarOf (otherSide sd) b"
  by (cases sd; simp)+

lemma clamp_Num_or_NaN:
  "js_max 0 (js_min 100 x) = NaN \<and> x = NaN \<or>
   (\<exists>v. js_max 0 (js_min 100 x) = Num v \<and> 0 \<le> v \<and> v \<le> 100)"
  by (cases x) simp_all

text \<open>
  What holds of every pointer-move event during a drag: the handler writes the clamped
  percentage into the captured scalar of the captured boundary and leaves the other
  axis, the other boundaries and the other scalar as they are. The clamped percentage
  is a number in \<open>[0, 100]\<close>, except that it is NaN when the surface has no extent on
  the dragged axis and the pointer is at its origin.
\<close>

lemma drag_overwrites_only_captured_scalar:
  "let g' = handleMouseMove (Some d) (Some rect) e g;
       t = dragType d;
       i = boundaryIdx d;
       pos = clampedPercent t rect e
   in (pos = NaN \<and> pointerPercent t rect e = NaN \<or>
         (\<exists>v. pos = Num v \<and> 0 \<le> v \<and> v \<le> 100)) \<and>
      otherAxisOf t g' = otherAxisOf t (jsGridLines g) \<and>
      length (axisOf t g') = length (axisOf t (jsGridLines g)) \<and>
      (\<forall>j < length (axisOf t (jsGridLines g)).
         j \<noteq> i \<longrightarrow> axisOf t g' ! j = axisOf t (jsGridLines g) ! j) \<and>
      (i < length (axisOf t (jsGridLines g)) \<longrightarrow>
         scalarOf (side d) (axisOf t g' ! i) = pos \<and>
         scalarOf (otherSide (side d)) (axisOf t g' ! i) =
           scalarOf (otherSide (side d)) (axisOf t (jsGridLines g) ! i))"
proof (cases "dragType d")
  case h_axis
  then show ?thesis
    using clamp_Num_or_NaN [of "pointerPercent h_axis rect e"]
    by (simp add: handleMouseMove_def clampedPercent_def Let_def length_mapIndexed
        nth_mapIndexed scalarOf_setSide)
next
  case v_axis
  then show ?thesis
    using clamp_Num_or_NaN [of "pointerPercent v_axis rect e"]
    by (simp add: handleMouseMove_def clampedPercent_def Let_def length_mapIndexed
        nth_mapIndexed scalarOf_setSide)
qed

lemma pointerPercent_NaN:
  "pointerPercent v_axis rect e = NaN \<longleftrightarrow> rectWidth rect = 0 \<and> clientX e = rectLeft rect"
  "pointerPercent h_axis rect e = NaN \<longleftrightarrow> rectHeight rect = 0 \<and> clientY e = rectTop rect"
  by (auto simp add: js_div_def)

text \<open>
  C5 on the code. The editing surface has width 0 and the pointer is at its left edge
  while the start of the second vertical boundary is dragged: the percentage is
  \<open>0 / 0\<close>, NaN, which \<^verbatim>\<open>Math.min\<close> and \<^verbatim>\<open>Math.max\<close> pass on, and the handler writes NaN
  into the captured scalar, not a number clamped to \<open>[0, 100]\<close>. The rest of the grid
  lines is as before.
\<close>

theorem drag_on_zero_width_surface_writes_NaN:
  "handleMouseMove (Some \<lparr>dragType = v_axis, boundaryIdx = 1, side = start_side\<rparr>)
     (Some \<lparr>rectLeft = 10, rectTop = 20, rectWidth = 0, rectHeight = 0\<rparr>)
     \<lparr>clientX = 10, clientY = 300\<rparr> gridInverted =
   \<lparr>jsHorizontal = [\<lparr>jsStart = Num 0, jsEnd = Num 1.5\<rparr>,
                    \<lparr>jsStart = Num 98.5, jsEnd = Num 100\<rparr>],
    jsVertical = [\<lparr>jsStart = Num 0, jsEnd = Num 50\<rparr>,
                  \<lparr>jsStart = NaN, jsEnd = Num 60\<rparr>,
                  \<lparr>jsStart = Num 98.5, jsEnd = Num 100\<rparr>]\<rparr>"
  by (simp add: handleMouseMove_def jsGridLines_def jsBoundary_def mapIndexed_def
      enumerate_eq_zip gridInverted_def upt_conv_Cons js_div_def)

section \<open>The names of the downloads\<close>

lemma decimal_digit: "n < 10 \<Longrightarrow> decimal n = [''0123456789'' ! n]"
  by (simp add: decimal.simps [of n])

lemma sliceTiles_gridThin_jpeg:
  "sliceTiles dataUrlEncoder image100 gridThin 0.6 True jpeg =
     Inr [\<lparr>dataUrl = ''data:image/jpeg;base64,QUJD'', index = 0, row = 0, col = 0\<rparr>,
          \<lparr>dataUrl = ''data:image/jpeg;base64,QUJD'', index = 2, row = 0, col = 2\<rparr>]"
  by (simp add: sliceTiles_eq gridThin_def scanOrder_def cellOutcome_def degenerate_def
      cellRect_def image100_def dataUrlEncoder_def tileRequest_def)

text \<open>
  C7 on the code. A run with the output format \<^verbatim>\<open>jpeg\<close> on \<^const>\<open>gridThin\<close> yields the
  tiles of index 0 and 2, with JPEG payloads. The archive names them \<^verbatim>\<open>slice_1.webp\<close>
  and \<^verbatim>\<open>slice_2.webp\<close>: by position in the array, not by \<^verbatim>\<open>index\<close>, and with the fixed
  extension \<^verbatim>\<open>webp\<close>. The single download of the second tile is named by its index,
  \<^verbatim>\<open>slice_3.webp\<close>.
\<close>

theorem archive_names_by_position_webp:
  "sliceTiles dataUrlEncoder image100 gridThin 0.6 True jpeg =
     Inr [\<lparr>dataUrl = ''data:image/jpeg;base64,QUJD'', index = 0, row = 0, col = 0\<rparr>,
          \<lparr>dataUrl = ''data:image/jpeg;base64,QUJD'', index = 2, row = 0, col = 2\<rparr>] \<and>
   downloadAll False
     [\<lparr>dataUrl = ''data:image/jpeg;base64,QUJD'', index = 0, row = 0, col = 0\<rparr>,
      \<lparr>dataUrl = ''data:image/jpeg;base64,QUJD'', index = 2, row = 0, col = 2\<rparr>] =
     Some ([(''slice_1.webp'', Some ''QUJD''), (''slice_2.webp'', Some ''QUJD'')],
           ''grid_slices_2_tiles.zip'') \<and>
   downloadOne ''data:image/jpeg;base64,QUJD'' 2 =
     (''data:image/jpeg;base64,QUJD'', ''slice_3.webp'')"
proof -
  have "downloadAll False
     [\<lparr>dataUrl = ''data:image/jpeg;base64,QUJD'', index = 0, row = 0, col = 0\<rparr>,
      \<lparr>dataUrl = ''data:image/jpeg;base64,QUJD'', index = 2, row = 0, col = 2\<rparr>] =
     Some ([(''slice_1.webp'', Some ''QUJD''), (''slice_2.webp'', Some ''QUJD'')],
           ''grid_slices_2_tiles.zip'')"
    by (simp add: downloadAll_def zipEntries_def mapIndexed_def enumerate_eq_zip
        upt_conv_Cons decimal_digit base64Data_def)
  moreover have "downloadOne ''data:image/jpeg;base64,QUJD'' 2 =
     (''data:image/jpeg;base64,QUJD'', ''slice_3.webp'')"
    by (simp add: downloadOne_def decimal_digit)
  ultimately show ?thesis
    using sliceTiles_gridThin_jpeg by simp
qed

end
